theory Spec2Isabelle
  imports Complex_Main
begin

section \<open>Tilting Arpeggios: a shallow embedding\<close>

text \<open>
  The program \<^verbatim>\<open>circuitplayground_tilting_arpeggios.py\<close> has two classes:
  \<^verbatim>\<open>CustomizedExpress\<close>, the board (buttons, switch, accelerometer, NeoPixels, speaker),
  and \<^verbatim>\<open>TiltingArpeggios\<close>, the instrument. Python's \<^verbatim>\<open>int\<close> is \<^typ>\<open>int\<close>. A finite
  Python \<^verbatim>\<open>float\<close> is the \<^typ>\<open>real\<close> number it stands for; where a property depends on
  the rounding of an operation (the deadline of \<^verbatim>\<open>pressed\<close>, the frequency of a note) the
  result is rounded to the nearest double with \<open>fl\<close>, and elsewhere the operation is
  exact. An exception is a value of \<open>py_error\<close> on the left of a sum. What the hardware returns when it is read (button
  levels, switch, acceleration, \<^verbatim>\<open>time.monotonic()\<close>) is a parameter of the function
  that reads it; what the program writes (pixels, speaker, audio output) is a record that
  is passed through.
\<close>

subsection \<open>Python primitives\<close>

datatype py_error = IndexError | AssertionError | OverflowError

definition py_bind :: "py_error + 'a \<Rightarrow> ('a \<Rightarrow> py_error + 'b) \<Rightarrow> py_error + 'b" where
  "py_bind r f = (case r of Inl e \<Rightarrow> Inl e | Inr v \<Rightarrow> f v)"

text \<open>
  Rounding to the nearest double (IEEE 754 binary64, ties to even). \<open>rne\<close> rounds a real
  to the nearest integer, a tie to the even one; \<open>fl x\<close> rounds \<open>x\<close> to the nearest
  multiple of the unit in the last place of its binade, with 53 significant bits and the
  smallest exponent - 1022 (below it the doubles are equally spaced). A result beyond the
  largest double, which Python gives as \<^verbatim>\<open>inf\<close> or refuses with \<^verbatim>\<open>OverflowError\<close>, is
  outside this model: the clock and the notes of the program are far below it.
\<close>

definition rne :: "real \<Rightarrow> int" where
  "rne r =
     (let f = \<lfloor>r\<rfloor>; d = r - real_of_int f
      in if d < 1 / 2 then f else if d > 1 / 2 then f + 1 else if even f then f else f + 1)"

definition fl :: "real \<Rightarrow> real" where
  "fl x =
     (if x = 0 then 0
      else let e = max \<lfloor>log 2 \<bar>x\<bar>\<rfloor> (- 1022);
               ulp = 2 powr real_of_int (e - 52)
           in real_of_int (rne (x / ulp)) * ulp)"

text \<open>\<^verbatim>\<open>int(x)\<close> on a float truncates towards zero.\<close>

definition py_int :: "real \<Rightarrow> int" where
  "py_int x = (if 0 \<le> x then \<lfloor>x\<rfloor> else \<lceil>x\<rceil>)"

text \<open>
  Indexing a sequence of \<open>n\<close> elements: \<open>0, \<dots>, n - 1\<close> are positions, \<open>- n, \<dots>, - 1\<close>
  count from the end, and every other index raises \<^verbatim>\<open>IndexError\<close>.
\<close>

definition py_index :: "nat \<Rightarrow> int \<Rightarrow> nat option" where
  "py_index n i =
     (if 0 \<le> i \<and> i < int n then Some (nat i)
      else if - int n \<le> i \<and> i < 0 then Some (nat (int n + i))
      else None)"

text \<open>\<^verbatim>\<open>xs[i]\<close> and \<^verbatim>\<open>xs[i] = v\<close>.\<close>

definition getitem :: "'a list \<Rightarrow> int \<Rightarrow> py_error + 'a" where
  "getitem xs i = (case py_index (length xs) i of None \<Rightarrow> Inl IndexError | Some k \<Rightarrow> Inr (xs ! k))"

definition setitem :: "'a list \<Rightarrow> int \<Rightarrow> 'a \<Rightarrow> py_error + 'a list" where
  "setitem xs i v =
     (case py_index (length xs) i of None \<Rightarrow> Inl IndexError | Some k \<Rightarrow> Inr (xs[k := v]))"

text \<open>\<^verbatim>\<open>array.array("H", values)\<close>: every value must fit an unsigned 16-bit integer.\<close>

definition array_H :: "int list \<Rightarrow> py_error + int list" where
  "array_H values = (if list_all (\<lambda>v. 0 \<le> v \<and> v \<le> 65535) values then Inr values else Inl OverflowError)"

subsection \<open>The board: \<^verbatim>\<open>CustomizedExpress\<close>\<close>

type_synonym color = "nat \<times> nat \<times> nat"

text \<open>One reading of the inputs of the board, at the instant a function reads them.\<close>

record sensors =
  button_a :: bool
  button_b :: bool
  switch :: bool
  acceleration :: "real \<times> real \<times> real"
  monotonic :: real

text \<open>
  The audio collaborators \<^verbatim>\<open>audiocore.RawSample\<close> and \<^verbatim>\<open>audioio.AudioOut\<close> are library
  objects outside the repository. A sample is its data and its sample rate (8000 when
  created); \<^verbatim>\<open>play(sample, loop)\<close> replaces whatever is playing. \<open>play_calls\<close> counts the
  invocations of \<^verbatim>\<open>play\<close>.
\<close>

record RawSample =
  sample_data :: "int list"
  sample_rate :: int

record AudioOut =
  playing :: "(RawSample \<times> bool) option"
  play_calls :: nat

definition play :: "AudioOut \<Rightarrow> RawSample \<Rightarrow> bool \<Rightarrow> AudioOut" where
  "play out sample loop = \<lparr>playing = Some (sample, loop), play_calls = Suc (play_calls out)\<rparr>"

record CustomizedExpress =
  pixels :: "color list"
  brightness :: real
  speaker_enable :: bool
  volume :: real
  audiocore_raw_sample :: RawSample
  audio_out :: AudioOut

text \<open>
  The attributes \<^verbatim>\<open>_highest_supported_frequency\<close>, \<^verbatim>\<open>_generators\<close> and \<^verbatim>\<open>_waveform_index\<close>
  are assigned in \<^verbatim>\<open>__init__\<close> and nowhere else, so they are constants here.
\<close>

definition highest_supported_frequency :: real where
  "highest_supported_frequency = 20000"

definition square_waveform :: "int \<Rightarrow> real \<Rightarrow> py_error + int list" where
  "square_waveform length_arg amplitude =
     (if length_arg \<noteq> 2 then Inl AssertionError
      else let loudest_audible_amplitude = 0.5;
               max_amplitude = 2 ^ 16 - 1
           in Inr [0, py_int (loudest_audible_amplitude * amplitude * max_amplitude)])"

definition generators :: "((int \<Rightarrow> real \<Rightarrow> py_error + int list) \<times> int) list" where
  "generators = [(square_waveform, 2)]"

definition waveform_index :: int where
  "waveform_index = 0"

definition create_waveform :: "CustomizedExpress \<Rightarrow> py_error + CustomizedExpress" where
  "create_waveform self =
     py_bind (getitem generators waveform_index) (\<lambda>(generator, length_arg).
     py_bind (generator length_arg (volume self)) (\<lambda>values.
     py_bind (array_H values) (\<lambda>data.
       Inr (self\<lparr>audiocore_raw_sample := \<lparr>sample_data = data, sample_rate = 8000\<rparr>\<rparr>))))"

text \<open>
  \<^verbatim>\<open>CustomizedExpress.__init__\<close>: ten pixels, all off; speaker disabled; volume 1.0; nothing
  playing; then the waveform is created (the sample it replaces here is empty).
\<close>

definition CustomizedExpress_init :: "py_error + CustomizedExpress" where
  "CustomizedExpress_init =
     create_waveform
       \<lparr>pixels = replicate 10 (0, 0, 0), brightness = 1, speaker_enable = False, volume = 1,
        audiocore_raw_sample = \<lparr>sample_data = [], sample_rate = 8000\<rparr>,
        audio_out = \<lparr>playing = None, play_calls = 0\<rparr>\<rparr>"

definition set_volume :: "CustomizedExpress \<Rightarrow> real \<Rightarrow> py_error + CustomizedExpress" where
  "set_volume self v = create_waveform (self\<lparr>volume := v\<rparr>)"

definition start_tone :: "CustomizedExpress \<Rightarrow> real \<Rightarrow> py_error + CustomizedExpress" where
  "start_tone self frequency =
     (if frequency \<le> highest_supported_frequency \<and> volume self > 0 then
        py_bind (getitem generators waveform_index) (\<lambda>(generator, length_arg).
          let sample = (audiocore_raw_sample self)
                         \<lparr>sample_rate := py_int (real_of_int length_arg * frequency)\<rparr>;
              self1 = self\<lparr>audiocore_raw_sample := sample\<rparr>;
              self2 = self1\<lparr>speaker_enable := False\<rparr>;
              self3 = self2\<lparr>audio_out := play (audio_out self2) (audiocore_raw_sample self2) True\<rparr>
          in Inr (self3\<lparr>speaker_enable := True\<rparr>))
      else Inr self)"

subsection \<open>The instrument: constants\<close>

definition HS_OCT :: int where "HS_OCT = 12"
definition HS_4TH :: int where "HS_4TH = 5"

definition ARPEGGIOS :: "int list list" where
  "ARPEGGIOS = [[0, 4, 7, 10], [0, 3, 5, 6, 7, 10]]"

text \<open>
  The literal \<^verbatim>\<open>32.70319566257483\<close> denotes the nearest double, and its product with 2 is
  a floating-point product.
\<close>

definition C1_FREQ :: real where "C1_FREQ = fl 32.70319566257483"
definition STARTING_NOTE :: real where "STARTING_NOTE = fl (C1_FREQ * 2)"
definition NUM_OCTAVES :: int where "NUM_OCTAVES = 4"
definition MIN_NOTE_PLAY_SECONDS :: real where "MIN_NOTE_PLAY_SECONDS = 0.2"
definition BUTTON_REPEAT_AFTER_SECONDS :: real where "BUTTON_REPEAT_AFTER_SECONDS = 0.25"

subsection \<open>The instrument: \<^verbatim>\<open>TiltingArpeggios\<close>\<close>

record TiltingArpeggios =
  circle_pos :: int
  key_offset :: int
  last_freq :: "real option"
  next_freq_change_allowed_at :: real
  next_press_allowed_at :: real
  buttons_on :: "bool \<times> bool"
  arpeg_note_indexes :: "int list list"

text \<open>
  \<^verbatim>\<open>calc_freq\<close> is three floating-point operations: the true division of two integers,
  which Python rounds correctly; the power \<^verbatim>\<open>2 ** x\<close>, the \<^verbatim>\<open>pow\<close> of the C library,
  taken as correctly rounded; and the product with \<^verbatim>\<open>STARTING_NOTE\<close>. The model covers the
  note indexes whose frequency is a finite double, among them all those the program plays
  (0 to 81); from index 12216 on the code gives \<^verbatim>\<open>inf\<close>, and from 12288 on it raises
  \<^verbatim>\<open>OverflowError\<close>.
\<close>

definition calc_freq :: "int \<Rightarrow> real" where
  "calc_freq i = fl (STARTING_NOTE * fl (2 powr fl (real_of_int i / real_of_int HS_OCT)))"

definition create_arpeggio :: "int list \<Rightarrow> int \<Rightarrow> int list" where
  "create_arpeggio arpeggio num_octaves =
     [int octave * HS_OCT + note. octave \<leftarrow> [0..<nat num_octaves], note \<leftarrow> arpeggio]"

definition create_arpeggios :: "int \<Rightarrow> int list list" where
  "create_arpeggios num_octaves = [create_arpeggio arpeggio num_octaves. arpeggio \<leftarrow> ARPEGGIOS]"

definition advance :: "TiltingArpeggios \<Rightarrow> int \<Rightarrow> TiltingArpeggios" where
  "advance self amount =
     (let self1 = self\<lparr>circle_pos := (circle_pos self + amount) mod HS_OCT\<rparr>
      in self1\<lparr>key_offset := circle_pos self1 * HS_4TH mod HS_OCT\<rparr>)"

text \<open>
  \<^verbatim>\<open>update_pixel\<close> writes the strip of the board: all pixels off, then one pixel lit.
\<close>

definition update_pixel :: "CustomizedExpress \<Rightarrow> int \<Rightarrow> py_error + CustomizedExpress" where
  "update_pixel cpx pos =
     (let filled = map (\<lambda>_. (0, 0, 0)) (pixels cpx);
          pixel_index = (4 - pos) mod 10;
          color = (if pos \<le> 9 then (0, 255, 0) else (255, 255, 0))
      in py_bind (setitem filled pixel_index color) (\<lambda>lit. Inr (cpx\<lparr>pixels := lit\<rparr>)))"

definition tilt :: "sensors \<Rightarrow> real" where
  "tilt cpx =
     (let standard_gravity = 9.81;
          constrained_accel = min (max 0 (- fst (snd (acceleration cpx)))) standard_gravity
      in constrained_accel / standard_gravity)"

text \<open>
  \<^verbatim>\<open>pressed\<close> returns its result and the instrument, whose deadline it may have moved.
  The clock is read only when the button is down. The new deadline is the floating-point
  sum of the time and the repeat interval.
\<close>

definition pressed :: "TiltingArpeggios \<Rightarrow> sensors \<Rightarrow> int \<Rightarrow> bool \<times> TiltingArpeggios" where
  "pressed self cpx index =
     (let is_pressed = (if index \<noteq> 0 then button_b cpx else button_a cpx)
      in if is_pressed then
           (let now = monotonic cpx
            in if now \<ge> next_press_allowed_at self
               then (True, self\<lparr>next_press_allowed_at := fl (now + BUTTON_REPEAT_AFTER_SECONDS)\<rparr>)
               else (False, self))
         else (False, self))"

text \<open>
  The first four lines of \<^verbatim>\<open>freq\<close>: the selected table, the number of notes in range and
  the index into the table.
\<close>

definition freq_locals :: "TiltingArpeggios \<Rightarrow> real \<Rightarrow> int \<Rightarrow> py_error + (int list \<times> int \<times> int)" where
  "freq_locals self normalized_position selected_arpeg =
     py_bind (getitem (arpeg_note_indexes self) selected_arpeg) (\<lambda>selected_arpeg_note_indexes.
     py_bind (getitem ARPEGGIOS selected_arpeg) (\<lambda>selected.
       let num_notes_in_selected_arpeg = int (length selected);
           num_arpeg_notes_in_range = num_notes_in_selected_arpeg * NUM_OCTAVES + 1;
           arpeg_index = py_int (normalized_position * real_of_int num_arpeg_notes_in_range)
       in Inr (selected_arpeg_note_indexes, num_arpeg_notes_in_range, arpeg_index)))"

definition freq :: "TiltingArpeggios \<Rightarrow> real \<Rightarrow> int \<Rightarrow> py_error + real" where
  "freq self normalized_position selected_arpeg =
     py_bind (freq_locals self normalized_position selected_arpeg)
       (\<lambda>(selected_arpeg_note_indexes, num_arpeg_notes_in_range, arpeg_index).
     py_bind (getitem selected_arpeg_note_indexes arpeg_index) (\<lambda>note.
       let note_index = key_offset self + note
       in Inr (calc_freq note_index)))"

definition change_tone_if_needed ::
  "TiltingArpeggios \<times> CustomizedExpress \<Rightarrow> sensors \<Rightarrow> py_error + (TiltingArpeggios \<times> CustomizedExpress)" where
  "change_tone_if_needed st cpx_in =
     (let self = fst st; cpx = snd st;
          arpeggio_index = (if switch cpx_in then 0 else 1)
      in py_bind (freq self (tilt cpx_in) arpeggio_index) (\<lambda>f.
           if Some f \<noteq> last_freq self
           then py_bind (start_tone cpx f) (\<lambda>cpx1. Inr (self\<lparr>last_freq := Some f\<rparr>, cpx1))
           else Inr (self, cpx)))"

text \<open>
  One turn of the \<^verbatim>\<open>for\<close> loop of \<^verbatim>\<open>process_button_presses\<close>, then the loop over
  \<^verbatim>\<open>enumerate((1, -1))\<close>. Each turn reads the board anew.
\<close>

definition button_turn ::
  "TiltingArpeggios \<times> CustomizedExpress \<Rightarrow> int \<times> int \<Rightarrow> sensors \<Rightarrow> py_error + (TiltingArpeggios \<times> CustomizedExpress)" where
  "button_turn st item cpx_in =
     (let self = fst st; cpx = snd st; button_index = fst item; direction = snd item;
          r = pressed self cpx_in button_index
      in if fst r then
           (let self1 = advance (snd r) direction
            in py_bind (update_pixel cpx (circle_pos self1)) (\<lambda>cpx1. Inr (self1, cpx1)))
         else Inr (snd r, cpx))"

definition process_button_presses ::
  "TiltingArpeggios \<times> CustomizedExpress \<Rightarrow> sensors \<times> sensors \<Rightarrow> py_error + (TiltingArpeggios \<times> CustomizedExpress)" where
  "process_button_presses st ins =
     py_bind (button_turn st (0, 1) (fst ins)) (\<lambda>st1. button_turn st1 (1, - 1) (snd ins))"

text \<open>
  \<^verbatim>\<open>TiltingArpeggios.__init__\<close>, reading the clock twice and the two buttons once.
\<close>

definition TiltingArpeggios_init ::
  "CustomizedExpress \<Rightarrow> real \<Rightarrow> real \<Rightarrow> sensors \<Rightarrow> py_error + (TiltingArpeggios \<times> CustomizedExpress)" where
  "TiltingArpeggios_init cpx now1 now2 cpx_in =
     (let cpx1 = cpx\<lparr>brightness := 0.2\<rparr>
      in py_bind (update_pixel cpx1 0) (\<lambda>cpx2.
           let num_octaves_to_pre_compute = NUM_OCTAVES + 2
           in Inr (\<lparr>circle_pos = 0, key_offset = 0, last_freq = None,
                    next_freq_change_allowed_at = now1, next_press_allowed_at = now2,
                    buttons_on = (button_a cpx_in, button_b cpx_in),
                    arpeg_note_indexes = create_arpeggios num_octaves_to_pre_compute\<rparr>, cpx2)))"

text \<open>
  One pass of the body of \<^verbatim>\<open>while True\<close> in \<^verbatim>\<open>run\<close>. The pass reads the board for each
  button, reads the clock for the test and again for the new deadline, and reads the
  board for the tone.
\<close>

record pass_inputs =
  at_buttons :: "sensors \<times> sensors"
  at_test :: real
  at_deadline :: real
  at_tone :: sensors

definition run_pass ::
  "TiltingArpeggios \<times> CustomizedExpress \<Rightarrow> pass_inputs \<Rightarrow> py_error + (TiltingArpeggios \<times> CustomizedExpress)" where
  "run_pass st ins =
     py_bind (process_button_presses st (at_buttons ins)) (\<lambda>st1.
       if at_test ins \<ge> next_freq_change_allowed_at (fst st1)
       then change_tone_if_needed
              ((fst st1)\<lparr>next_freq_change_allowed_at := at_deadline ins + MIN_NOTE_PLAY_SECONDS\<rparr>, snd st1)
              (at_tone ins)
       else Inr st1)"

text \<open>
  \<^verbatim>\<open>run\<close> never returns. Its first passes, one for each element of a list of readings;
  an exception ends the program.
\<close>

fun run :: "TiltingArpeggios \<times> CustomizedExpress \<Rightarrow> pass_inputs list \<Rightarrow> py_error + (TiltingArpeggios \<times> CustomizedExpress)" where
  "run st [] = Inr st"
| "run st (ins # rest) = py_bind (run_pass st ins) (\<lambda>st1. run st1 rest)"

text \<open>The program: the board is created, its volume set, the instrument created.\<close>

definition program_start ::
  "real \<Rightarrow> real \<Rightarrow> sensors \<Rightarrow> py_error + (TiltingArpeggios \<times> CustomizedExpress)" where
  "program_start now1 now2 cpx_in =
     py_bind CustomizedExpress_init (\<lambda>cpx0.
     py_bind (set_volume cpx0 1.0) (\<lambda>cpx.
       TiltingArpeggios_init cpx now1 now2 cpx_in))"

subsection \<open>Properties and sample states\<close>

text \<open>
  The invariant of the transposition state: the position on the circle of fourths is
  one of 0, ..., 11 and the key offset is five half-steps for each position, modulo 12.
\<close>

definition circle_inv :: "TiltingArpeggios \<Rightarrow> bool" where
  "circle_inv self =
     (0 \<le> circle_pos self \<and> circle_pos self \<le> 11 \<and> key_offset self = circle_pos self * 5 mod 12)"

text \<open>The indexes of the pixels of a strip that are not off.\<close>

definition lit_pixels :: "color list \<Rightarrow> nat list" where
  "lit_pixels strip = filter (\<lambda>i. strip ! i \<noteq> (0, 0, 0)) [0..<length strip]"

text \<open>
  Sample states: the board lying flat with nothing pressed at time 0, the board object
  as \<^verbatim>\<open>CustomizedExpress()\<close> leaves it, the instrument and the board as
  \<^verbatim>\<open>TiltingArpeggios()\<close> leaves them, both once the first tone plays, and a pass of the
  loop during which nothing is pressed, and the state after such a pass at time 1.
\<close>

definition board_at_rest :: sensors where
  "board_at_rest =
     \<lparr>button_a = False, button_b = False, switch = True, acceleration = (0, 0, 0), monotonic = 0\<rparr>"

definition new_board :: CustomizedExpress where
  "new_board =
     \<lparr>pixels = replicate 10 (0, 0, 0), brightness = 1, speaker_enable = False, volume = 1,
      audiocore_raw_sample = \<lparr>sample_data = [0, 32767], sample_rate = 8000\<rparr>,
      audio_out = \<lparr>playing = None, play_calls = 0\<rparr>\<rparr>"

definition new_instrument :: TiltingArpeggios where
  "new_instrument =
     \<lparr>circle_pos = 0, key_offset = 0, last_freq = None,
      next_freq_change_allowed_at = 0, next_press_allowed_at = 0,
      buttons_on = (False, False),
      arpeg_note_indexes = create_arpeggios (NUM_OCTAVES + 2)\<rparr>"

definition lit_board :: CustomizedExpress where
  "lit_board =
     new_board\<lparr>brightness := 0.2,
       pixels := [(0, 0, 0), (0, 0, 0), (0, 0, 0), (0, 0, 0), (0, 255, 0),
                  (0, 0, 0), (0, 0, 0), (0, 0, 0), (0, 0, 0), (0, 0, 0)]\<rparr>"

definition playing_instrument :: TiltingArpeggios where
  "playing_instrument = new_instrument\<lparr>last_freq := Some (calc_freq 0)\<rparr>"

definition playing_board :: CustomizedExpress where
  "playing_board =
     lit_board\<lparr>audiocore_raw_sample := \<lparr>sample_data = [0, 32767], sample_rate = 130\<rparr>,
               speaker_enable := True,
               audio_out := \<lparr>playing = Some (\<lparr>sample_data = [0, 32767], sample_rate = 130\<rparr>, True),
                             play_calls = 1\<rparr>\<rparr>"

definition quiet_pass :: "real \<Rightarrow> pass_inputs" where
  "quiet_pass now =
     \<lparr>at_buttons = (board_at_rest, board_at_rest), at_test = now, at_deadline = now,
      at_tone = board_at_rest\<rparr>"

definition first_tone_state :: "TiltingArpeggios \<times> CustomizedExpress" where
  "first_tone_state =
     (playing_instrument\<lparr>next_freq_change_allowed_at := 1 + MIN_NOTE_PLAY_SECONDS\<rparr>, playing_board)"

section \<open>Supporting lemmas\<close>

subsection \<open>Rounding to a double\<close>

lemma rne_of_int: "rne (real_of_int n) = n"
  by (simp add: rne_def)

lemma rne_nearest:
  "real_of_int m - 1 / 2 < r \<Longrightarrow> r < real_of_int m + 1 / 2 \<Longrightarrow> rne r = m"
proof -
  assume lo: "real_of_int m - 1 / 2 < r" and hi: "r < real_of_int m + 1 / 2"
  show ?thesis
  proof (cases "real_of_int m \<le> r")
    case True
    then have f: "\<lfloor>r\<rfloor> = m" using hi by (simp add: floor_eq_iff)
    show ?thesis using hi by (simp add: rne_def f)
  next
    case False
    then have f: "\<lfloor>r\<rfloor> = m - 1" using lo by (simp add: floor_eq_iff)
    show ?thesis using lo by (simp add: rne_def f)
  qed
qed


text \<open>In the binade of exponent \<open>k\<close> the doubles are the multiples of \<open>2 powr (k - 52)\<close>.\<close>

lemma fl_binade:
  assumes "2 powr real_of_int k \<le> \<bar>x\<bar>" and "\<bar>x\<bar> < 2 powr (real_of_int k + 1)" and "- 1022 \<le> k"
  shows "fl x = real_of_int (rne (x / 2 powr real_of_int (k - 52))) * 2 powr real_of_int (k - 52)"
proof -
  have "(0::real) < 2 powr real_of_int k" by simp
  then have pos: "0 < \<bar>x\<bar>" using assms(1) by (rule less_le_trans)
  then have nz: "x \<noteq> 0" by simp
  have "\<lfloor>log 2 \<bar>x\<bar>\<rfloor> = k"
    using assms(1,2) pos by (simp add: floor_log_eq_powr_iff)
  then show ?thesis using nz assms(3) by (simp add: fl_def Let_def max_def)
qed

lemma fl_exact:
  assumes "2 powr real_of_int k \<le> \<bar>x\<bar>" and "\<bar>x\<bar> < 2 powr (real_of_int k + 1)" and "- 1022 \<le> k"
      and "x = real_of_int m * 2 powr real_of_int (k - 52)"
  shows "fl x = x"
proof -
  have "x / 2 powr real_of_int (k - 52) = real_of_int m"
    using assms(4) by simp
  then show ?thesis
    using fl_binade[OF assms(1-3)] assms(4) by (simp add: rne_of_int)
qed

lemma fl_0: "fl 0 = 0"
  by (simp add: fl_def)

lemma fl_1: "fl 1 = 1"
  by (rule fl_exact[of 0 1 "2 ^ 52"]) (simp_all add: powr_neg_numeral)

lemma fl_2: "fl 2 = 2"
  by (rule fl_exact[of 1 2 "2 ^ 52"]) (simp_all add: powr_neg_numeral)

text \<open>The double that the literal \<^verbatim>\<open>32.70319566257483\<close> denotes.\<close>

lemma C1_FREQ_double: "C1_FREQ = 2301282809371819 / 2 ^ 46"
proof -
  have "rne (32.70319566257483 / 2 powr real_of_int (5 - 52)) = 4602565618743638"
    by (rule rne_nearest) (simp_all add: powr_neg_numeral)
  then show ?thesis
    unfolding C1_FREQ_def
    using fl_binade[of 5 "32.70319566257483"] by (simp add: powr_neg_numeral)
qed

lemma STARTING_NOTE_double: "STARTING_NOTE = 2301282809371819 / 2 ^ 45"
proof -
  have "fl (2301282809371819 / 2 ^ 45) = 2301282809371819 / 2 ^ 45"
    by (rule fl_exact[of 6 _ 4602565618743638]) (simp_all add: powr_neg_numeral)
  then show ?thesis by (simp add: STARTING_NOTE_def C1_FREQ_double)
qed


subsection \<open>Indexing and truncation\<close>

lemma getitem_in_range: "0 \<le> i \<Longrightarrow> i < int (length xs) \<Longrightarrow> getitem xs i = Inr (xs ! nat i)"
  by (simp add: getitem_def py_index_def)

lemma py_int_bounds:
  "0 \<le> t \<Longrightarrow> t \<le> 1 \<Longrightarrow> 0 \<le> n \<Longrightarrow>
   0 \<le> py_int (t * real_of_int n) \<and> py_int (t * real_of_int n) \<le> n"
proof -
  assume t: "0 \<le> t" "t \<le> 1" and n: "0 \<le> n"
  have nn: "0 \<le> t * real_of_int n" using t n by simp
  have "t * real_of_int n \<le> 1 * real_of_int n"
    using t n by (intro mult_right_mono) simp_all
  then have le: "t * real_of_int n \<le> real_of_int n" by simp
  have "\<lfloor>t * real_of_int n\<rfloor> \<le> n" using le by (simp add: floor_le_iff)
  moreover have "0 \<le> \<lfloor>t * real_of_int n\<rfloor>" using nn by simp
  ultimately show ?thesis using nn by (simp add: py_int_def)
qed

lemma tilt_range: "0 \<le> tilt cpx_in \<and> tilt cpx_in \<le> 1"
  by (simp add: tilt_def Let_def)

subsection \<open>The board after \<^verbatim>\<open>CustomizedExpress()\<close> and \<^verbatim>\<open>set_volume(1.0)\<close>\<close>

lemma getitem_generators: "getitem generators waveform_index = Inr (square_waveform, 2)"
  by (simp add: getitem_def py_index_def generators_def waveform_index_def)

lemma square_waveform_full: "square_waveform 2 1 = Inr [0, 32767]"
proof -
  have "py_int (65535 / 2) = 32767"
    unfolding py_int_def by (simp add: floor_eq_iff)
  then show ?thesis by (simp add: square_waveform_def)
qed

lemma create_waveform_full:
  "volume self = 1 \<Longrightarrow>
   create_waveform self =
     Inr (self\<lparr>audiocore_raw_sample := \<lparr>sample_data = [0, 32767], sample_rate = 8000\<rparr>\<rparr>)"
  by (simp add: create_waveform_def getitem_generators py_bind_def square_waveform_full array_H_def)

lemma CustomizedExpress_init_eq: "CustomizedExpress_init = Inr new_board"
  by (simp add: CustomizedExpress_init_def create_waveform_full new_board_def)

lemma set_volume_new_board: "set_volume new_board 1 = Inr new_board"
  by (simp add: set_volume_def create_waveform_full new_board_def)

subsection \<open>The pixels\<close>

lemma update_pixel_ok:
  "length (pixels cpx) = 10 \<Longrightarrow>
   update_pixel cpx pos =
     Inr (cpx\<lparr>pixels := (replicate 10 (0, 0, 0))
                [nat ((4 - pos) mod 10) := (if pos \<le> 9 then (0, 255, 0) else (255, 255, 0))]\<rparr>)"
proof -
  assume len: "length (pixels cpx) = 10"
  have fill: "map (\<lambda>_. (0::nat, 0::nat, 0::nat)) (pixels cpx) = replicate 10 (0, 0, 0)"
    using len by (simp add: map_replicate_const)
  have rng: "0 \<le> (4 - pos) mod 10" "(4 - pos) mod 10 < 10" by simp_all
  show ?thesis
    unfolding update_pixel_def Let_def fill setitem_def py_index_def py_bind_def
    using rng by simp
qed

lemma update_pixel_audio: "update_pixel cpx pos = Inr cpx1 \<Longrightarrow> audio_out cpx1 = audio_out cpx"
  by (auto simp: update_pixel_def py_bind_def Let_def split: sum.splits)

subsection \<open>The instrument after \<^verbatim>\<open>TiltingArpeggios()\<close>\<close>

lemma init_fields:
  "TiltingArpeggios_init cpx now1 now2 cpx_in = Inr (self, cpx1) \<Longrightarrow>
     circle_pos self = 0 \<and> key_offset self = 0 \<and> last_freq self = None
     \<and> arpeg_note_indexes self = create_arpeggios (NUM_OCTAVES + 2)"
  by (auto simp: TiltingArpeggios_init_def py_bind_def Let_def split: sum.splits)

lemma TiltingArpeggios_init_new:
  "TiltingArpeggios_init new_board 0 0 board_at_rest = Inr (new_instrument, lit_board)"
  by (simp add: TiltingArpeggios_init_def update_pixel_def setitem_def py_index_def py_bind_def new_board_def
        new_instrument_def lit_board_def board_at_rest_def eval_nat_numeral)

lemma program_start_new: "program_start 0 0 board_at_rest = Inr (new_instrument, lit_board)"
  by (simp add: program_start_def CustomizedExpress_init_eq set_volume_new_board py_bind_def
        TiltingArpeggios_init_new)

subsection \<open>The note tables\<close>

lemma create_arpeggio_nat: "create_arpeggio arpeggio n = create_arpeggio arpeggio (int (nat n))"
  by (simp add: create_arpeggio_def)

lemma create_arpeggio_Suc:
  "create_arpeggio arpeggio (int (Suc m)) =
     create_arpeggio arpeggio (int m) @ map (\<lambda>k. int m * 12 + k) arpeggio"
  unfolding create_arpeggio_def nat_int by (simp add: HS_OCT_def)

lemma length_create_arpeggio_nat:
  "length (create_arpeggio arpeggio (int m)) = m * length arpeggio"
proof (induction m)
  case 0
  show ?case by (simp add: create_arpeggio_def)
next
  case (Suc m)
  show ?case by (simp only: create_arpeggio_Suc length_append length_map Suc mult_Suc)
qed

lemma nth_create_arpeggio_nat:
  "octave < m \<Longrightarrow> i < length arpeggio \<Longrightarrow>
   create_arpeggio arpeggio (int m) ! (octave * length arpeggio + i) = int octave * 12 + arpeggio ! i"
proof (induction m)
  case 0
  then show ?case by simp
next
  case (Suc m)
  show ?case
  proof (cases "octave < m")
    case True
    have "octave * length arpeggio + i < Suc octave * length arpeggio"
      using Suc.prems(2) by simp
    also have "\<dots> \<le> m * length arpeggio"
      using True by (intro mult_le_mono1) simp
    finally have "octave * length arpeggio + i < length (create_arpeggio arpeggio (int m))"
      by (simp only: length_create_arpeggio_nat)
    then show ?thesis
      using Suc.IH[OF True Suc.prems(2)]
      by (simp only: create_arpeggio_Suc nth_append if_True)
  next
    case False
    then have eq: "octave = m" using Suc.prems(1) by simp
    show ?thesis
      using Suc.prems(2)
      by (simp only: create_arpeggio_Suc nth_append length_create_arpeggio_nat eq) simp
  qed
qed

lemma create_arpeggio_below:
  "\<forall>x\<in>set arpeggio. x < 12 \<Longrightarrow> x \<in> set (create_arpeggio arpeggio (int m)) \<Longrightarrow> x < 12 * int m"
proof (induction m)
  case 0
  then show ?case by (simp add: create_arpeggio_def)
next
  case (Suc m)
  from Suc.prems(2)
  have "x \<in> set (create_arpeggio arpeggio (int m)) \<or> x \<in> (\<lambda>k. int m * 12 + k) ` set arpeggio"
    by (simp only: create_arpeggio_Suc set_append set_map Un_iff)
  then show ?case
  proof
    assume "x \<in> set (create_arpeggio arpeggio (int m))"
    then have "x < 12 * int m" using Suc.IH Suc.prems(1) by blast
    then show ?thesis by simp
  next
    assume "x \<in> (\<lambda>k. int m * 12 + k) ` set arpeggio"
    then obtain k where "k \<in> set arpeggio" "x = int m * 12 + k" by blast
    then show ?thesis using Suc.prems(1) by fastforce
  qed
qed

lemma strictly_increasing_create_arpeggio_nat:
  assumes "sorted_wrt (<) arpeggio" and "\<forall>x\<in>set arpeggio. 0 \<le> x \<and> x < 12"
  shows "sorted_wrt (<) (create_arpeggio arpeggio (int m))"
proof (induction m)
  case 0
  show ?case by (simp add: create_arpeggio_def)
next
  case (Suc m)
  have bound: "\<forall>x\<in>set arpeggio. x < 12" using assms(2) by blast
  have row: "sorted_wrt (<) (map (\<lambda>k. int m * 12 + k) arpeggio)"
    using assms(1) by (simp add: sorted_wrt_map)
  have cross: "\<forall>x\<in>set (create_arpeggio arpeggio (int m)).
                 \<forall>y\<in>set (map (\<lambda>k. int m * 12 + k) arpeggio). x < y"
  proof (intro ballI)
    fix x y
    assume x: "x \<in> set (create_arpeggio arpeggio (int m))"
       and y: "y \<in> set (map (\<lambda>k. int m * 12 + k) arpeggio)"
    have "x < 12 * int m" using create_arpeggio_below[OF bound x] .
    moreover obtain k where "k \<in> set arpeggio" "y = int m * 12 + k" using y by auto
    ultimately show "x < y" using assms(2) by fastforce
  qed
  show ?case
    using Suc row cross by (simp only: create_arpeggio_Suc sorted_wrt_append)
qed

lemma ARPEGGIOS_shape:
  "arpeggio \<in> set ARPEGGIOS \<Longrightarrow> sorted_wrt (<) arpeggio \<and> (\<forall>x\<in>set arpeggio. 0 \<le> x \<and> x < 12)"
  by (auto simp: ARPEGGIOS_def)

lemma dominant_table:
  "create_arpeggio [0, 4, 7, 10] 6 =
     [0, 4, 7, 10, 12, 16, 19, 22, 24, 28, 31, 34, 36, 40, 43, 46, 48, 52, 55, 58, 60, 64, 67, 70]"
  by (simp add: create_arpeggio_def HS_OCT_def eval_nat_numeral)

lemma blues_table:
  "create_arpeggio [0, 3, 5, 6, 7, 10] 6 =
     [0, 3, 5, 6, 7, 10, 12, 15, 17, 18, 19, 22, 24, 27, 29, 30, 31, 34,
      36, 39, 41, 42, 43, 46, 48, 51, 53, 54, 55, 58, 60, 63, 65, 66, 67, 70]"
  by (simp add: create_arpeggio_def HS_OCT_def eval_nat_numeral)

lemma length_dominant: "length (create_arpeggio [0, 4, 7, 10] 6) = 24"
  by (simp add: dominant_table)

lemma length_blues: "length (create_arpeggio [0, 3, 5, 6, 7, 10] 6) = 36"
  by (simp add: blues_table)

lemma create_arpeggios_6:
  "create_arpeggios 6 = [create_arpeggio [0, 4, 7, 10] 6, create_arpeggio [0, 3, 5, 6, 7, 10] 6]"
  by (simp add: create_arpeggios_def ARPEGGIOS_def)

subsection \<open>The frequency of a tilt\<close>

lemma freq_locals_dominant:
  "arpeg_note_indexes self = create_arpeggios (NUM_OCTAVES + 2) \<Longrightarrow>
   freq_locals self t 0 = Inr (create_arpeggio [0, 4, 7, 10] 6, 17, py_int (t * 17))"
  by (simp add: freq_locals_def create_arpeggios_6 getitem_def py_index_def py_bind_def ARPEGGIOS_def NUM_OCTAVES_def)

lemma freq_locals_blues:
  "arpeg_note_indexes self = create_arpeggios (NUM_OCTAVES + 2) \<Longrightarrow>
   freq_locals self t 1 = Inr (create_arpeggio [0, 3, 5, 6, 7, 10] 6, 25, py_int (t * 25))"
  by (simp add: freq_locals_def create_arpeggios_6 getitem_def py_index_def py_bind_def ARPEGGIOS_def NUM_OCTAVES_def)

lemma freq_dominant_level:
  "arpeg_note_indexes self = create_arpeggios (NUM_OCTAVES + 2) \<Longrightarrow>
   freq self 0 0 = Inr (calc_freq (key_offset self + 0))"
proof -
  assume tb: "arpeg_note_indexes self = create_arpeggios (NUM_OCTAVES + 2)"
  have "py_int (0 * 17) = 0" by (simp add: py_int_def)
  then have "freq_locals self 0 0 = Inr (create_arpeggio [0, 4, 7, 10] 6, 17, 0)"
    using freq_locals_dominant[OF tb, of 0] by simp
  then show ?thesis by (simp add: freq_def py_bind_def dominant_table getitem_def py_index_def)
qed

lemma freq_dominant_upright:
  "arpeg_note_indexes self = create_arpeggios (NUM_OCTAVES + 2) \<Longrightarrow>
   freq self 1 0 = Inr (calc_freq (key_offset self + 52))"
proof -
  assume tb: "arpeg_note_indexes self = create_arpeggios (NUM_OCTAVES + 2)"
  have "py_int (1 * 17) = 17" by (simp add: py_int_def)
  then have "freq_locals self 1 0 = Inr (create_arpeggio [0, 4, 7, 10] 6, 17, 17)"
    using freq_locals_dominant[OF tb, of 1] by simp
  then show ?thesis by (simp add: freq_def py_bind_def dominant_table getitem_def py_index_def)
qed

lemma freq_ignores_deadline:
  "freq (self\<lparr>next_freq_change_allowed_at := d\<rparr>) t sel = freq self t sel"
  by (simp add: freq_def freq_locals_def)

lemma calc_freq_0: "calc_freq 0 = STARTING_NOTE"
proof -
  have "fl STARTING_NOTE = STARTING_NOTE"
    unfolding STARTING_NOTE_double
    by (rule fl_exact[of 6 _ 4602565618743638]) (simp_all add: powr_neg_numeral)
  then show ?thesis by (simp add: calc_freq_def fl_0 fl_1)
qed

lemma calc_freq_12: "calc_freq 12 = 2 * STARTING_NOTE"
proof -
  have "fl (STARTING_NOTE * 2) = STARTING_NOTE * 2"
    unfolding STARTING_NOTE_double
    by (rule fl_exact[of 7 _ 4602565618743638]) (simp_all add: powr_neg_numeral)
  then show ?thesis by (simp add: calc_freq_def HS_OCT_def fl_1 fl_2)
qed

lemma fl_octave: "fl (2 * STARTING_NOTE) = 2 * STARTING_NOTE"
  unfolding STARTING_NOTE_double
  by (rule fl_exact[of 7 _ 4602565618743638]) (simp_all add: powr_neg_numeral)

subsection \<open>Moving around the circle\<close>

lemma circle_pos_advance: "circle_pos (advance self amount) = (circle_pos self + amount) mod 12"
  by (simp add: advance_def HS_OCT_def Let_def)

lemma key_offset_advance:
  "key_offset (advance self amount) = circle_pos (advance self amount) * 5 mod 12"
  by (simp add: advance_def HS_OCT_def HS_4TH_def Let_def)

lemma advance_inv: "circle_inv (advance self amount)"
  by (simp add: circle_inv_def advance_def HS_OCT_def HS_4TH_def Let_def)

lemma foldl_advance_inv: "circle_inv self \<Longrightarrow> circle_inv (foldl advance self ds)"
  by (induction ds arbitrary: self) (simp_all add: advance_inv)

lemma circle_pos_advance_funpow:
  "0 \<le> circle_pos self \<Longrightarrow> circle_pos self < 12 \<Longrightarrow>
   circle_pos (((\<lambda>s. advance s amount) ^^ n) self) = (circle_pos self + int n * amount) mod 12"
proof (induction n)
  case 0
  then show ?case by simp
next
  case (Suc n)
  have "circle_pos (((\<lambda>s. advance s amount) ^^ Suc n) self)
        = (circle_pos (((\<lambda>s. advance s amount) ^^ n) self) + amount) mod 12"
    by (simp add: circle_pos_advance)
  also have "\<dots> = ((circle_pos self + int n * amount) mod 12 + amount) mod 12"
    using Suc by simp
  also have "\<dots> = (circle_pos self + int (Suc n) * amount) mod 12"
    by (simp only: mod_add_left_eq) (simp add: algebra_simps)
  finally show ?case .
qed

lemma key_offset_advance_funpow:
  "key_offset (((\<lambda>s. advance s amount) ^^ Suc n) self)
     = circle_pos (((\<lambda>s. advance s amount) ^^ Suc n) self) * 5 mod 12"
  by (simp add: key_offset_advance)

subsection \<open>What the button handling leaves alone\<close>

lemma pressed_last_freq: "last_freq (snd (pressed self cpx_in index)) = last_freq self"
  by (simp add: pressed_def Let_def)

lemma pressed_next_freq:
  "next_freq_change_allowed_at (snd (pressed self cpx_in index)) = next_freq_change_allowed_at self"
  by (simp add: pressed_def Let_def)

lemma pressed_circle:
  "circle_pos (snd (pressed self cpx_in index)) = circle_pos self \<and>
   key_offset (snd (pressed self cpx_in index)) = key_offset self"
  by (simp add: pressed_def Let_def)

lemma pressed_inv: "circle_inv (snd (pressed self cpx_in index)) = circle_inv self"
  by (simp add: circle_inv_def pressed_circle)

lemma advance_last_freq: "last_freq (advance self amount) = last_freq self"
  by (simp add: advance_def Let_def)

lemma advance_next_freq:
  "next_freq_change_allowed_at (advance self amount) = next_freq_change_allowed_at self"
  by (simp add: advance_def Let_def)

lemma button_turn_keeps:
  "button_turn st item cpx_in = Inr st1 \<Longrightarrow>
   last_freq (fst st1) = last_freq (fst st) \<and> audio_out (snd st1) = audio_out (snd st)"
  by (auto simp: button_turn_def py_bind_def Let_def pressed_last_freq advance_last_freq
           dest: update_pixel_audio split: if_splits sum.splits)

lemma button_turn_next_freq:
  "button_turn st item cpx_in = Inr st1 \<Longrightarrow>
   next_freq_change_allowed_at (fst st1) = next_freq_change_allowed_at (fst st)"
  by (auto simp: button_turn_def py_bind_def Let_def pressed_next_freq advance_next_freq
           split: if_splits sum.splits)

lemma button_turn_inv:
  "button_turn st item cpx_in = Inr st1 \<Longrightarrow> circle_inv (fst st) \<Longrightarrow> circle_inv (fst st1)"
  by (auto simp: button_turn_def py_bind_def Let_def advance_inv pressed_inv
           split: if_splits sum.splits)

lemma process_button_presses_turns:
  "process_button_presses st ins = Inr st1 \<Longrightarrow>
   \<exists>stm. button_turn st (0, 1) (fst ins) = Inr stm \<and> button_turn stm (1, - 1) (snd ins) = Inr st1"
  by (auto simp: process_button_presses_def py_bind_def split: sum.splits)

lemma process_button_presses_keeps:
  "process_button_presses st ins = Inr st1 \<Longrightarrow>
   last_freq (fst st1) = last_freq (fst st) \<and> audio_out (snd st1) = audio_out (snd st)"
proof -
  assume "process_button_presses st ins = Inr st1"
  then obtain stm where a: "button_turn st (0, 1) (fst ins) = Inr stm"
                   and b: "button_turn stm (1, - 1) (snd ins) = Inr st1"
    using process_button_presses_turns by blast
  show ?thesis using button_turn_keeps[OF a] button_turn_keeps[OF b] by simp
qed

lemma process_button_presses_next_freq:
  "process_button_presses st ins = Inr st1 \<Longrightarrow>
   next_freq_change_allowed_at (fst st1) = next_freq_change_allowed_at (fst st)"
proof -
  assume "process_button_presses st ins = Inr st1"
  then obtain stm where a: "button_turn st (0, 1) (fst ins) = Inr stm"
                   and b: "button_turn stm (1, - 1) (snd ins) = Inr st1"
    using process_button_presses_turns by blast
  show ?thesis using button_turn_next_freq[OF a] button_turn_next_freq[OF b] by simp
qed

lemma process_button_presses_inv:
  "process_button_presses st ins = Inr st1 \<Longrightarrow> circle_inv (fst st) \<Longrightarrow> circle_inv (fst st1)"
proof -
  assume r: "process_button_presses st ins = Inr st1" and i: "circle_inv (fst st)"
  from r obtain stm where a: "button_turn st (0, 1) (fst ins) = Inr stm"
                   and b: "button_turn stm (1, - 1) (snd ins) = Inr st1"
    using process_button_presses_turns by blast
  show ?thesis using button_turn_inv[OF b button_turn_inv[OF a i]] .
qed

lemma no_press_at_rest:
  "process_button_presses (self, cpx) (board_at_rest, board_at_rest) = Inr (self, cpx)"
  by (simp add: process_button_presses_def button_turn_def pressed_def py_bind_def board_at_rest_def)

subsection \<open>Starting and keeping a tone\<close>

lemma start_tone_cases:
  "start_tone self frequency =
     (if frequency \<le> 20000 \<and> volume self > 0
      then Inr (self\<lparr>audiocore_raw_sample :=
                       (audiocore_raw_sample self)\<lparr>sample_rate := py_int (2 * frequency)\<rparr>,
                     speaker_enable := True,
                     audio_out :=
                       \<lparr>playing = Some ((audiocore_raw_sample self)
                                          \<lparr>sample_rate := py_int (2 * frequency)\<rparr>, True),
                        play_calls = Suc (play_calls (audio_out self))\<rparr>\<rparr>)
      else Inr self)"
  by (simp add: start_tone_def highest_supported_frequency_def getitem_generators py_bind_def
        play_def Let_def)

lemma start_tone_plays_once:
  "\<exists>cpx1. start_tone cpx f = Inr cpx1 \<and>
          play_calls (audio_out cpx1) \<le> Suc (play_calls (audio_out cpx))"
  by (simp add: start_tone_cases)

lemma change_tone_same:
  "freq self (tilt cpx_in) (if switch cpx_in then 0 else 1) = Inr f \<Longrightarrow> last_freq self = Some f \<Longrightarrow>
   change_tone_if_needed (self, cpx) cpx_in = Inr (self, cpx)"
  by (simp add: change_tone_if_needed_def py_bind_def Let_def)

lemma change_tone_differs:
  "freq self (tilt cpx_in) (if switch cpx_in then 0 else 1) = Inr f \<Longrightarrow> last_freq self \<noteq> Some f \<Longrightarrow>
   start_tone cpx f = Inr cpx1 \<Longrightarrow>
   change_tone_if_needed (self, cpx) cpx_in = Inr (self\<lparr>last_freq := Some f\<rparr>, cpx1)"
  by (auto simp add: change_tone_if_needed_def py_bind_def Let_def)

lemma change_tone_result:
  assumes "freq self (tilt cpx_in) (if switch cpx_in then 0 else 1) = Inr f"
      and "change_tone_if_needed (self, cpx) cpx_in = Inr (self1, cpx1)"
  shows "last_freq self1 = Some f \<and>
         play_calls (audio_out cpx1) \<le> Suc (play_calls (audio_out cpx))"
proof (cases "last_freq self = Some f")
  case True
  then show ?thesis using change_tone_same[OF assms(1) True, of cpx] assms(2) by simp
next
  case False
  obtain c where c: "start_tone cpx f = Inr c"
                    "play_calls (audio_out c) \<le> Suc (play_calls (audio_out cpx))"
    using start_tone_plays_once by blast
  show ?thesis using change_tone_differs[OF assms(1) False c(1)] assms(2) c(2) by auto
qed

lemma change_tone_circle:
  "change_tone_if_needed st cpx_in = Inr st1 \<Longrightarrow>
   circle_pos (fst st1) = circle_pos (fst st) \<and> key_offset (fst st1) = key_offset (fst st)"
  by (auto simp: change_tone_if_needed_def py_bind_def Let_def split: sum.splits if_splits)

subsection \<open>Passes of the loop\<close>

lemma run_pass_buttons:
  "run_pass st p = Inr st1 \<Longrightarrow> \<exists>sta. process_button_presses st (at_buttons p) = Inr sta"
  by (auto simp: run_pass_def py_bind_def split: sum.splits)

lemma run_pass_evaluates:
  assumes "process_button_presses st (at_buttons p) = Inr sta"
      and "at_test p \<ge> next_freq_change_allowed_at (fst sta)"
  shows "run_pass st p =
           change_tone_if_needed
             ((fst sta)\<lparr>next_freq_change_allowed_at := at_deadline p + MIN_NOTE_PLAY_SECONDS\<rparr>, snd sta)
             (at_tone p)"
  using assms by (simp add: run_pass_def py_bind_def)

lemma run_pass_waits:
  assumes "process_button_presses st (at_buttons p) = Inr sta"
      and "at_test p < next_freq_change_allowed_at (fst sta)"
  shows "run_pass st p = Inr sta"
  using assms by (simp add: run_pass_def py_bind_def)

lemma run_pass_skips:
  assumes "run_pass st p = Inr st1" and "at_test p < next_freq_change_allowed_at (fst st)"
  shows "last_freq (fst st1) = last_freq (fst st) \<and> audio_out (snd st1) = audio_out (snd st) \<and>
         next_freq_change_allowed_at (fst st1) = next_freq_change_allowed_at (fst st)"
proof -
  obtain sta where a: "process_button_presses st (at_buttons p) = Inr sta"
    using run_pass_buttons[OF assms(1)] by blast
  have n: "next_freq_change_allowed_at (fst sta) = next_freq_change_allowed_at (fst st)"
    using process_button_presses_next_freq[OF a] .
  then have "st1 = sta" using run_pass_waits[OF a] assms by simp
  then show ?thesis using process_button_presses_keeps[OF a] n by simp
qed

lemma run_Cons:
  "run st (p # rest) = Inr st1 \<Longrightarrow> \<exists>sta. run_pass st p = Inr sta \<and> run sta rest = Inr st1"
  by (auto simp: py_bind_def split: sum.splits)

lemma run_skips:
  "run st mids = Inr stm \<Longrightarrow> \<forall>p\<in>set mids. at_test p < next_freq_change_allowed_at (fst st) \<Longrightarrow>
   last_freq (fst stm) = last_freq (fst st) \<and> audio_out (snd stm) = audio_out (snd st)"
proof (induction mids arbitrary: st)
  case Nil
  then show ?case by simp
next
  case (Cons p rest)
  obtain sta where a: "run_pass st p = Inr sta" and b: "run sta rest = Inr stm"
    using run_Cons[OF Cons.prems(1)] by blast
  have p: "at_test p < next_freq_change_allowed_at (fst st)" using Cons.prems(2) by simp
  note k = run_pass_skips[OF a p]
  have "\<forall>q\<in>set rest. at_test q < next_freq_change_allowed_at (fst sta)"
    using Cons.prems(2) k by simp
  from Cons.IH[OF b this] k show ?case by simp
qed

lemma run_pass_inv:
  "run_pass st p = Inr st1 \<Longrightarrow> circle_inv (fst st) \<Longrightarrow> circle_inv (fst st1)"
proof -
  assume r: "run_pass st p = Inr st1" and i: "circle_inv (fst st)"
  obtain sta where a: "process_button_presses st (at_buttons p) = Inr sta"
    using run_pass_buttons[OF r] by blast
  have ia: "circle_inv (fst sta)" using process_button_presses_inv[OF a i] .
  show ?thesis
  proof (cases "at_test p \<ge> next_freq_change_allowed_at (fst sta)")
    case True
    have "change_tone_if_needed
              ((fst sta)\<lparr>next_freq_change_allowed_at := at_deadline p + MIN_NOTE_PLAY_SECONDS\<rparr>, snd sta)
              (at_tone p) = Inr st1"
      using run_pass_evaluates[OF a True] r by simp
    from change_tone_circle[OF this] ia show ?thesis by (simp add: circle_inv_def)
  next
    case False
    then have "st1 = sta" using run_pass_waits[OF a] r by simp
    then show ?thesis using ia by simp
  qed
qed

text \<open>
  The invariant of the transposition state holds after any number of passes of the loop,
  whatever the board returns.
\<close>

lemma run_inv:
  "run st passes = Inr st1 \<Longrightarrow> circle_inv (fst st) \<Longrightarrow> circle_inv (fst st1)"
proof (induction passes arbitrary: st)
  case Nil
  then show ?case by simp
next
  case (Cons p rest)
  obtain sta where a: "run_pass st p = Inr sta" and b: "run sta rest = Inr st1"
    using run_Cons[OF Cons.prems(1)] by blast
  show ?case using Cons.IH[OF b run_pass_inv[OF a Cons.prems(2)]] .
qed

subsection \<open>The first tone\<close>

lemma tilt_at_rest: "tilt board_at_rest = 0"
  by (simp add: tilt_def board_at_rest_def)

lemma freq_new_level:
  "freq new_instrument (tilt board_at_rest) (if switch board_at_rest then 0 else 1)
     = Inr (calc_freq 0)"
proof -
  have "freq new_instrument 0 0 = Inr (calc_freq (key_offset new_instrument + 0))"
    by (rule freq_dominant_level) (simp add: new_instrument_def)
  moreover have "switch board_at_rest" by (simp add: board_at_rest_def)
  moreover have "key_offset new_instrument = 0" by (simp add: new_instrument_def)
  ultimately show ?thesis by (simp add: tilt_at_rest)
qed

lemma freq_playing_level:
  "freq (playing_instrument\<lparr>next_freq_change_allowed_at := d\<rparr>) (tilt board_at_rest)
        (if switch board_at_rest then 0 else 1)
     = Inr (calc_freq 0)"
proof -
  let ?s = "playing_instrument\<lparr>next_freq_change_allowed_at := d\<rparr>"
  have "freq ?s 0 0 = Inr (calc_freq (key_offset ?s + 0))"
    by (rule freq_dominant_level) (simp add: playing_instrument_def new_instrument_def)
  moreover have "switch board_at_rest" by (simp add: board_at_rest_def)
  moreover have "key_offset ?s = 0" by (simp add: playing_instrument_def new_instrument_def)
  ultimately show ?thesis by (simp add: tilt_at_rest)
qed

lemma start_tone_lit_board: "start_tone lit_board (calc_freq 0) = Inr playing_board"
proof -
  have r: "py_int (2 * calc_freq 0) = 130"
    unfolding py_int_def calc_freq_0 STARTING_NOTE_double by (simp add: floor_eq_iff)
  have le: "calc_freq 0 \<le> 20000" by (simp add: calc_freq_0 STARTING_NOTE_double)
  have v: "volume lit_board > 0" by (simp add: lit_board_def new_board_def)
  show ?thesis
    unfolding start_tone_cases using le v r
    by (simp add: playing_board_def lit_board_def new_board_def)
qed

lemma change_tone_new:
  "change_tone_if_needed (new_instrument\<lparr>next_freq_change_allowed_at := d\<rparr>, lit_board) board_at_rest
     = Inr (playing_instrument\<lparr>next_freq_change_allowed_at := d\<rparr>, playing_board)"
proof -
  let ?s = "new_instrument\<lparr>next_freq_change_allowed_at := d\<rparr>"
  have f: "freq ?s (tilt board_at_rest) (if switch board_at_rest then 0 else 1) = Inr (calc_freq 0)"
    using freq_new_level by (simp only: freq_ignores_deadline)
  have n: "last_freq ?s \<noteq> Some (calc_freq 0)" by (simp add: new_instrument_def)
  show ?thesis
    using change_tone_differs[OF f n start_tone_lit_board]
    by (simp add: playing_instrument_def)
qed

lemma first_quiet_pass:
  "run_pass (new_instrument, lit_board) (quiet_pass 1)
     = Inr (playing_instrument\<lparr>next_freq_change_allowed_at := 1 + MIN_NOTE_PLAY_SECONDS\<rparr>, playing_board)"
proof -
  have b: "process_button_presses (new_instrument, lit_board) (at_buttons (quiet_pass 1))
             = Inr (new_instrument, lit_board)"
    by (simp add: quiet_pass_def no_press_at_rest)
  have t: "at_test (quiet_pass 1) \<ge> next_freq_change_allowed_at (fst (new_instrument, lit_board))"
    by (simp add: quiet_pass_def new_instrument_def)
  show ?thesis
    using run_pass_evaluates[OF b t] change_tone_new[of "1 + MIN_NOTE_PLAY_SECONDS"]
    by (simp add: quiet_pass_def)
qed

lemma waiting_quiet_pass:
  "now < d \<Longrightarrow>
   run_pass (playing_instrument\<lparr>next_freq_change_allowed_at := d\<rparr>, playing_board) (quiet_pass now)
     = Inr (playing_instrument\<lparr>next_freq_change_allowed_at := d\<rparr>, playing_board)"
proof -
  assume w: "now < d"
  let ?st = "(playing_instrument\<lparr>next_freq_change_allowed_at := d\<rparr>, playing_board)"
  have b: "process_button_presses ?st (at_buttons (quiet_pass now)) = Inr ?st"
    by (simp add: quiet_pass_def no_press_at_rest)
  have t: "at_test (quiet_pass now) < next_freq_change_allowed_at (fst ?st)"
    using w by (simp add: quiet_pass_def)
  show ?thesis using run_pass_waits[OF b t] .
qed

lemma change_tone_only_when_differs:
  "change_tone_if_needed (self, cpx) cpx_in = Inr (self1, cpx1) \<Longrightarrow>
   \<exists>f. freq self (tilt cpx_in) (if switch cpx_in then 0 else 1) = Inr f \<and>
       (if Some f = last_freq self then self1 = self \<and> cpx1 = cpx
        else self1 = self\<lparr>last_freq := Some f\<rparr> \<and> start_tone cpx f = Inr cpx1)"
  by (auto simp: change_tone_if_needed_def py_bind_def Let_def split: sum.splits if_splits)

lemma run_pass_changes_last_freq:
  assumes r: "run_pass st p = Inr st1" and c: "last_freq (fst st1) \<noteq> last_freq (fst st)"
  shows "\<exists>sta f. process_button_presses st (at_buttons p) = Inr sta \<and>
           at_test p \<ge> next_freq_change_allowed_at (fst sta) \<and>
           freq (fst sta) (tilt (at_tone p)) (if switch (at_tone p) then 0 else 1) = Inr f \<and>
           Some f \<noteq> last_freq (fst st) \<and> last_freq (fst st1) = Some f"
proof -
  obtain sta where a: "process_button_presses st (at_buttons p) = Inr sta"
    using run_pass_buttons[OF r] by blast
  note k = process_button_presses_keeps[OF a]
  let ?s = "(fst sta)\<lparr>next_freq_change_allowed_at := at_deadline p + MIN_NOTE_PLAY_SECONDS\<rparr>"
  have t: "at_test p \<ge> next_freq_change_allowed_at (fst sta)"
  proof (rule ccontr)
    assume "\<not> at_test p \<ge> next_freq_change_allowed_at (fst sta)"
    then have "st1 = sta" using run_pass_waits[OF a] r by simp
    then show False using k c by simp
  qed
  have "change_tone_if_needed (?s, snd sta) (at_tone p) = Inr (fst st1, snd st1)"
    using run_pass_evaluates[OF a t] r by simp
  from change_tone_only_when_differs[OF this]
  obtain f where f: "freq ?s (tilt (at_tone p)) (if switch (at_tone p) then 0 else 1) = Inr f"
      and e: "if Some f = last_freq ?s then fst st1 = ?s \<and> snd st1 = snd sta
              else fst st1 = ?s\<lparr>last_freq := Some f\<rparr> \<and> start_tone (snd sta) f = Inr (snd st1)"
    by blast
  have f': "freq (fst sta) (tilt (at_tone p)) (if switch (at_tone p) then 0 else 1) = Inr f"
    using f by (simp only: freq_ignores_deadline)
  have ne: "Some f \<noteq> last_freq ?s"
  proof
    assume q: "Some f = last_freq ?s"
    then have "fst st1 = ?s" using e by simp
    then show False using c k by simp
  qed
  then have "last_freq (fst st1) = Some f" using e by simp
  moreover have "Some f \<noteq> last_freq (fst st)" using ne k by simp
  ultimately show ?thesis using a t f' by blast
qed

lemma two_evaluations:
  assumes b1: "process_button_presses st (at_buttons p1) = Inr sta"
      and t1: "at_test p1 \<ge> next_freq_change_allowed_at (fst sta)"
      and f1: "freq (fst sta) (tilt (at_tone p1)) (if switch (at_tone p1) then 0 else 1) = Inr f"
      and r1: "run_pass st p1 = Inr st1"
      and mid: "\<forall>p\<in>set mids. at_test p < next_freq_change_allowed_at (fst st1)"
      and rm: "run st1 mids = Inr stm"
      and b2: "process_button_presses stm (at_buttons p2) = Inr stb"
      and t2: "at_test p2 \<ge> next_freq_change_allowed_at (fst stb)"
      and f2: "freq (fst stb) (tilt (at_tone p2)) (if switch (at_tone p2) then 0 else 1) = Inr f"
  shows "\<exists>st2. run_pass stm p2 = Inr st2 \<and> last_freq (fst st2) = last_freq (fst st1) \<and>
           audio_out (snd st2) = audio_out (snd st1) \<and>
           play_calls (audio_out (snd st2)) \<le> play_calls (audio_out (snd st)) + 1"
proof -
  let ?d1 = "at_deadline p1 + MIN_NOTE_PLAY_SECONDS"
  let ?d2 = "at_deadline p2 + MIN_NOTE_PLAY_SECONDS"
  have e1: "change_tone_if_needed ((fst sta)\<lparr>next_freq_change_allowed_at := ?d1\<rparr>, snd sta) (at_tone p1)
              = Inr (fst st1, snd st1)"
    using run_pass_evaluates[OF b1 t1] r1 by simp
  have f1': "freq ((fst sta)\<lparr>next_freq_change_allowed_at := ?d1\<rparr>) (tilt (at_tone p1))
               (if switch (at_tone p1) then 0 else 1) = Inr f"
    using f1 by (simp only: freq_ignores_deadline)
  have one: "last_freq (fst st1) = Some f \<and>
             play_calls (audio_out (snd st1)) \<le> Suc (play_calls (audio_out (snd sta)))"
    using change_tone_result[OF f1' e1] .
  have ka: "audio_out (snd sta) = audio_out (snd st)"
    using process_button_presses_keeps[OF b1] by simp
  have km: "last_freq (fst stm) = last_freq (fst st1) \<and> audio_out (snd stm) = audio_out (snd st1)"
    using run_skips[OF rm mid] .
  have kb: "last_freq (fst stb) = last_freq (fst stm) \<and> audio_out (snd stb) = audio_out (snd stm)"
    using process_button_presses_keeps[OF b2] .
  have f2': "freq ((fst stb)\<lparr>next_freq_change_allowed_at := ?d2\<rparr>) (tilt (at_tone p2))
               (if switch (at_tone p2) then 0 else 1) = Inr f"
    using f2 by (simp only: freq_ignores_deadline)
  have l2: "last_freq ((fst stb)\<lparr>next_freq_change_allowed_at := ?d2\<rparr>) = Some f"
    using one km kb by simp
  have "run_pass stm p2 = Inr ((fst stb)\<lparr>next_freq_change_allowed_at := ?d2\<rparr>, snd stb)"
    using run_pass_evaluates[OF b2 t2] change_tone_same[OF f2' l2, of "snd stb"] by simp
  then show ?thesis using one ka km kb by simp
qed

section \<open>The claims\<close>

text \<open>
  C1. For every normalised tilt in [0, 1] and both arpeggio selectors (0, dominant seventh;
  1, blues), \<^verbatim>\<open>freq\<close> on the tables that \<^verbatim>\<open>create_arpeggios(NUM_OCTAVES + 2)\<close> built
  computes an index \<open>idx\<close> with \<open>0 \<le> idx \<le> n\<close>, where \<open>n\<close> is the number of notes in
  range (17 or 25), and \<open>n\<close> is below the length of the selected table (24 or 36): the
  lookup does not raise, and \<^verbatim>\<open>freq\<close> returns the frequency of the note found there.
  The tilt is a real number here; a floating-point product of a tilt of at most 1 and the
  integer \<open>n\<close> is at most \<open>n\<close> as well, so the bound does not depend on rounding.
\<close>

theorem freq_index_in_range:
  "arpeg_note_indexes self = create_arpeggios (NUM_OCTAVES + 2) \<Longrightarrow>
   0 \<le> t \<Longrightarrow> t \<le> 1 \<Longrightarrow> sel = 0 \<or> sel = 1 \<Longrightarrow>
     (\<exists>table n idx.
        freq_locals self t sel = Inr (table, n, idx) \<and>
        table = create_arpeggio (ARPEGGIOS ! nat sel) (NUM_OCTAVES + 2) \<and>
        0 \<le> idx \<and> idx \<le> n \<and> n < int (length table) \<and>
        freq self t sel = Inr (calc_freq (key_offset self + table ! nat idx)))"
proof -
  assume tb: "arpeg_note_indexes self = create_arpeggios (NUM_OCTAVES + 2)"
     and t: "0 \<le> t" "t \<le> 1" and sel: "sel = 0 \<or> sel = 1"
  from sel show ?thesis
  proof
    assume s0: "sel = 0"
    let ?table = "create_arpeggio [0, 4, 7, 10] 6"
    have b: "0 \<le> py_int (t * 17) \<and> py_int (t * 17) \<le> 17"
      using py_int_bounds[OF t, of 17] by simp
    have loc: "freq_locals self t sel = Inr (?table, 17, py_int (t * 17))"
      using freq_locals_dominant[OF tb] s0 by simp
    have "getitem ?table (py_int (t * 17)) = Inr (?table ! nat (py_int (t * 17)))"
      using b by (intro getitem_in_range) (simp_all add: length_dominant)
    then have fr: "freq self t sel = Inr (calc_freq (key_offset self + ?table ! nat (py_int (t * 17))))"
      by (simp add: freq_def loc py_bind_def)
    have tab: "?table = create_arpeggio (ARPEGGIOS ! nat sel) (NUM_OCTAVES + 2)"
      using s0 by (simp add: ARPEGGIOS_def NUM_OCTAVES_def)
    have len: "(17::int) < int (length ?table)" by (simp add: length_dominant)
    show ?thesis
      using loc fr tab b len by blast
  next
    assume s1: "sel = 1"
    let ?table = "create_arpeggio [0, 3, 5, 6, 7, 10] 6"
    have b: "0 \<le> py_int (t * 25) \<and> py_int (t * 25) \<le> 25"
      using py_int_bounds[OF t, of 25] by simp
    have loc: "freq_locals self t sel = Inr (?table, 25, py_int (t * 25))"
      using freq_locals_blues[OF tb] s1 by simp
    have "getitem ?table (py_int (t * 25)) = Inr (?table ! nat (py_int (t * 25)))"
      using b by (intro getitem_in_range) (simp_all add: length_blues)
    then have fr: "freq self t sel = Inr (calc_freq (key_offset self + ?table ! nat (py_int (t * 25))))"
      by (simp add: freq_def loc py_bind_def)
    have tab: "?table = create_arpeggio (ARPEGGIOS ! nat sel) (NUM_OCTAVES + 2)"
      using s1 by (simp add: ARPEGGIOS_def NUM_OCTAVES_def)
    have len: "(25::int) < int (length ?table)" by (simp add: length_blues)
    show ?thesis
      using loc fr tab b len by blast
  qed
qed

text \<open>The new instrument, fully tilted, playing blues: index 25 of a table of 36 notes.\<close>

theorem freq_index_in_range_witness:
  "arpeg_note_indexes new_instrument = create_arpeggios (NUM_OCTAVES + 2) \<and>
   (0::real) \<le> 1 \<and> (1::real) \<le> 1 \<and> ((1::int) = 0 \<or> (1::int) = 1) \<and>
   (\<exists>table n idx.
        freq_locals new_instrument 1 1 = Inr (table, n, idx) \<and>
        table = create_arpeggio (ARPEGGIOS ! nat 1) (NUM_OCTAVES + 2) \<and>
        0 \<le> idx \<and> idx \<le> n \<and> n < int (length table) \<and>
        freq new_instrument 1 1 = Inr (calc_freq (key_offset new_instrument + table ! nat idx)))"
proof -
  have h: "arpeg_note_indexes new_instrument = create_arpeggios (NUM_OCTAVES + 2)"
    by (simp add: new_instrument_def)
  show ?thesis using h freq_index_in_range[OF h, of 1 1] by simp
qed

text \<open>
  C2. For the dominant-seventh arpeggio (selector 0, four notes) and \<^verbatim>\<open>NUM_OCTAVES = 4\<close>,
  \<^verbatim>\<open>freq\<close> computes 17 notes in range; the truncating cast gives index 0 at tilt 0.0 and
  index 17 at tilt 1.0. On the precomputed tables these are the notes 0 and 52 above the
  key offset.
\<close>

theorem freq_tilt_boundary:
  "freq_locals (self\<lparr>arpeg_note_indexes := create_arpeggios (NUM_OCTAVES + 2)\<rparr>) 0 0
     = Inr (create_arpeggio [0, 4, 7, 10] 6, 17, 0) \<and>
   freq_locals (self\<lparr>arpeg_note_indexes := create_arpeggios (NUM_OCTAVES + 2)\<rparr>) 1 0
     = Inr (create_arpeggio [0, 4, 7, 10] 6, 17, 17) \<and>
   freq (self\<lparr>arpeg_note_indexes := create_arpeggios (NUM_OCTAVES + 2)\<rparr>) 0 0
     = Inr (calc_freq (key_offset self + 0)) \<and>
   freq (self\<lparr>arpeg_note_indexes := create_arpeggios (NUM_OCTAVES + 2)\<rparr>) 1 0
     = Inr (calc_freq (key_offset self + 52))"
proof -
  let ?s = "self\<lparr>arpeg_note_indexes := create_arpeggios (NUM_OCTAVES + 2)\<rparr>"
  have tb: "arpeg_note_indexes ?s = create_arpeggios (NUM_OCTAVES + 2)" by simp
  have i0: "py_int (0 * 17) = 0" by (simp add: py_int_def)
  have i1: "py_int (1 * 17) = 17" by (simp add: py_int_def)
  have l0: "freq_locals ?s 0 0 = Inr (create_arpeggio [0, 4, 7, 10] 6, 17, 0)"
    using freq_locals_dominant[OF tb, of 0] i0 by simp
  have l1: "freq_locals ?s 1 0 = Inr (create_arpeggio [0, 4, 7, 10] 6, 17, 17)"
    using freq_locals_dominant[OF tb, of 1] i1 by simp
  have f0: "freq ?s 0 0 = Inr (calc_freq (key_offset self + 0))"
    using freq_dominant_level[OF tb] by simp
  have f1: "freq ?s 1 0 = Inr (calc_freq (key_offset self + 52))"
    using freq_dominant_upright[OF tb] by simp
  show ?thesis using l0 l1 f0 f1 by simp
qed

text \<open>
  C3. For each of the two arpeggios of the program, (0, 4, 7, 10) and (0, 3, 5, 6, 7, 10),
  and any number of octaves of at least 1, \<^verbatim>\<open>create_arpeggio\<close> returns a list of
  \<open>len(arpeggio) * num_octaves\<close> notes, whose element for octave \<open>o\<close> and position \<open>i\<close> of
  the pattern (at index \<open>o * len(arpeggio) + i\<close>) is \<open>o * 12 + arpeggio[i]\<close>. The list is
  non-decreasing, and indeed strictly increasing.
\<close>

theorem create_arpeggio_table:
  "arpeggio \<in> set ARPEGGIOS \<Longrightarrow> 1 \<le> num_octaves \<Longrightarrow>
     length (create_arpeggio arpeggio num_octaves) = length arpeggio * nat num_octaves \<and>
     sorted (create_arpeggio arpeggio num_octaves) \<and>
     sorted_wrt (<) (create_arpeggio arpeggio num_octaves) \<and>
     (\<forall>octave i. 0 \<le> octave \<and> octave < num_octaves \<and> i < length arpeggio \<longrightarrow>
        create_arpeggio arpeggio num_octaves ! (nat octave * length arpeggio + i)
          = octave * 12 + arpeggio ! i)"
proof -
  assume a: "arpeggio \<in> set ARPEGGIOS" and n: "1 \<le> num_octaves"
  let ?t = "create_arpeggio arpeggio num_octaves"
  have t: "?t = create_arpeggio arpeggio (int (nat num_octaves))" by (rule create_arpeggio_nat)
  have len: "length ?t = length arpeggio * nat num_octaves"
    by (simp only: t length_create_arpeggio_nat mult.commute)
  have inc: "sorted_wrt (<) ?t"
    using ARPEGGIOS_shape[OF a] strictly_increasing_create_arpeggio_nat[of arpeggio "nat num_octaves"]
    by (simp only: t) simp
  have srt: "sorted ?t" using inc strict_sorted_iff by blast
  have nth: "\<forall>octave i. 0 \<le> octave \<and> octave < num_octaves \<and> i < length arpeggio \<longrightarrow>
        ?t ! (nat octave * length arpeggio + i) = octave * 12 + arpeggio ! i"
  proof (intro allI impI)
    fix octave :: int and i :: nat
    assume h: "0 \<le> octave \<and> octave < num_octaves \<and> i < length arpeggio"
    then have "nat octave < nat num_octaves" by simp
    from nth_create_arpeggio_nat[OF this, of i arpeggio] h
    show "?t ! (nat octave * length arpeggio + i) = octave * 12 + arpeggio ! i"
      by (simp only: t) simp
  qed
  show ?thesis using len inc srt nth by blast
qed

text \<open>Two octaves of the dominant seventh: eight notes, and note 2 of octave 1 is 19.\<close>

theorem create_arpeggio_table_witness:
  "[0, 4, 7, 10] \<in> set ARPEGGIOS \<and> (1::int) \<le> 2 \<and>
   length (create_arpeggio [0, 4, 7, 10] 2) = 8 \<and>
   sorted (create_arpeggio [0, 4, 7, 10] 2) \<and>
   sorted_wrt (<) (create_arpeggio [0, 4, 7, 10] 2) \<and>
   create_arpeggio [0, 4, 7, 10] 2 ! 6 = 19"
proof -
  have a: "[0, 4, 7, 10] \<in> set ARPEGGIOS" by (simp add: ARPEGGIOS_def)
  have b: "(1::int) \<le> 2" by simp
  note r = create_arpeggio_table[OF a b]
  from r have "0 \<le> (1::int) \<and> (1::int) < 2 \<and> 2 < length [0, 4, 7, 10::int] \<longrightarrow>
      create_arpeggio [0, 4, 7, 10] 2 ! (nat 1 * length [0, 4, 7, 10::int] + 2)
        = 1 * 12 + [0, 4, 7, 10] ! 2"
    by blast
  then have n: "create_arpeggio [0, 4, 7, 10] 2 ! 6 = 19" by (simp add: eval_nat_numeral)
  show ?thesis using a b r n by simp
qed

text \<open>
  C4. After \<^verbatim>\<open>TiltingArpeggios.__init__\<close>, after a call of \<^verbatim>\<open>advance\<close> on any state, and
  after any sequence of calls of \<^verbatim>\<open>advance\<close> from the initial state (in particular with
  directions +1 and -1), the position on the circle is an integer from 0 to 11 and the
  key offset is the position times 5 modulo 12. Python's \<^verbatim>\<open>%\<close> with a positive modulus
  is never negative, as \<open>mod\<close> on \<^typ>\<open>int\<close>.
\<close>

theorem circle_invariant:
  "TiltingArpeggios_init cpx now1 now2 cpx_in = Inr (self0, cpx1) \<Longrightarrow>
     circle_inv self0 \<and> circle_inv (advance self direction) \<and>
     circle_inv (foldl advance self0 directions)"
proof -
  assume i: "TiltingArpeggios_init cpx now1 now2 cpx_in = Inr (self0, cpx1)"
  have a: "circle_inv self0" using init_fields[OF i] by (simp add: circle_inv_def)
  show ?thesis using a advance_inv foldl_advance_inv[OF a] by simp
qed

text \<open>The new instrument; one step back; forward, back and back again ends at 11, offset 7.\<close>

theorem circle_invariant_witness:
  "TiltingArpeggios_init new_board 0 0 board_at_rest = Inr (new_instrument, lit_board) \<and>
   circle_inv new_instrument \<and> circle_inv (advance new_instrument (- 1)) \<and>
   circle_inv (foldl advance new_instrument [1, - 1, - 1]) \<and>
   circle_pos (foldl advance new_instrument [1, - 1, - 1]) = 11 \<and>
   key_offset (foldl advance new_instrument [1, - 1, - 1]) = 7"
proof -
  note i = TiltingArpeggios_init_new
  have v: "circle_pos (foldl advance new_instrument [1, - 1, - 1]) = 11 \<and>
           key_offset (foldl advance new_instrument [1, - 1, - 1]) = 7"
    by (simp add: advance_def new_instrument_def HS_OCT_def HS_4TH_def Let_def)
  show ?thesis
    using i circle_invariant[OF i, of new_instrument "- 1" "[1, - 1, - 1]"] v by simp
qed

text \<open>
  C5. From position 0, twelve calls of \<^verbatim>\<open>advance(1)\<close> lead back to position 0 and key
  offset 0; one call of \<^verbatim>\<open>advance(-1)\<close> leads to position 11 and key offset 7.
\<close>

theorem advance_wraparound:
  "circle_pos self = 0 \<Longrightarrow>
     circle_pos (((\<lambda>s. advance s 1) ^^ 12) self) = 0 \<and>
     key_offset (((\<lambda>s. advance s 1) ^^ 12) self) = 0 \<and>
     circle_pos (advance self (- 1)) = 11 \<and>
     key_offset (advance self (- 1)) = 7"
proof -
  assume z: "circle_pos self = 0"
  have twelve: "(12::nat) = Suc 11" by simp
  have a: "circle_pos (((\<lambda>s. advance s 1) ^^ 12) self) = 0"
    using z by (simp add: circle_pos_advance_funpow)
  have "key_offset (((\<lambda>s. advance s 1) ^^ Suc 11) self)
     = circle_pos (((\<lambda>s. advance s 1) ^^ Suc 11) self) * 5 mod 12"
    by (rule key_offset_advance_funpow)
  then have b: "key_offset (((\<lambda>s. advance s 1) ^^ 12) self) = 0"
    using a by (simp only: twelve[symmetric]) simp
  have c: "circle_pos (advance self (- 1)) = 11"
    using z by (simp add: circle_pos_advance)
  have d: "key_offset (advance self (- 1)) = 7"
    using c by (simp add: key_offset_advance)
  show ?thesis using a b c d by simp
qed

theorem advance_wraparound_witness:
  "circle_pos new_instrument = 0 \<and>
   circle_pos (((\<lambda>s. advance s 1) ^^ 12) new_instrument) = 0 \<and>
   key_offset (((\<lambda>s. advance s 1) ^^ 12) new_instrument) = 0 \<and>
   circle_pos (advance new_instrument (- 1)) = 11 \<and>
   key_offset (advance new_instrument (- 1)) = 7"
proof -
  have h: "circle_pos new_instrument = 0" by (simp add: new_instrument_def)
  show ?thesis using h advance_wraparound[OF h] by simp
qed

text \<open>
  C6. \<^verbatim>\<open>calc_freq(i)\<close> is the base frequency times 2 to the power \<open>i / 12\<close>, each of the
  three operations (quotient, power, product) rounded to a double, for every note index
  the program can play (0 to 81). The base frequency is \<^verbatim>\<open>STARTING_NOTE\<close>, exactly twice
  \<^verbatim>\<open>C1_FREQ\<close> and within a thousandth of 65.406 Hz. \<^verbatim>\<open>calc_freq(0)\<close> is the base
  frequency and \<^verbatim>\<open>calc_freq(12)\<close> is exactly twice \<^verbatim>\<open>calc_freq(0)\<close>; the floating-point
  product \<^verbatim>\<open>2 * calc_freq(0)\<close> is exact, so the comparison \<^verbatim>\<open>==\<close> of the two holds.
\<close>

theorem calc_freq_formula:
  "(0 \<le> i \<and> i \<le> 81 \<longrightarrow>
      calc_freq i = fl (STARTING_NOTE * fl (2 powr fl (real_of_int i / 12)))) \<and>
   STARTING_NOTE = 2 * C1_FREQ \<and> \<bar>STARTING_NOTE - 65.406\<bar> < 0.001 \<and>
   calc_freq 0 = STARTING_NOTE \<and> calc_freq 12 = 2 * calc_freq 0 \<and>
   fl (2 * calc_freq 0) = calc_freq 12"
proof -
  have a: "calc_freq i = fl (STARTING_NOTE * fl (2 powr fl (real_of_int i / 12)))"
    by (simp add: calc_freq_def HS_OCT_def)
  have b: "STARTING_NOTE = 2 * C1_FREQ"
    by (simp add: STARTING_NOTE_double C1_FREQ_double)
  have c: "\<bar>STARTING_NOTE - 65.406\<bar> < 0.001"
    by (simp add: STARTING_NOTE_double)
  show ?thesis
    using a b c calc_freq_0 calc_freq_12 fl_octave by simp
qed

text \<open>Note 12, one octave above the base.\<close>

theorem calc_freq_formula_witness:
  "(0::int) \<le> 12 \<and> (12::int) \<le> 81 \<and>
   calc_freq 12 = fl (STARTING_NOTE * fl (2 powr fl (real_of_int 12 / 12))) \<and>
   calc_freq 12 = 2 * calc_freq 0 \<and> calc_freq 12 = 2301282809371819 / 2 ^ 44"
proof -
  have v: "calc_freq 12 = 2301282809371819 / 2 ^ 44"
    by (simp add: calc_freq_12 STARTING_NOTE_double)
  show ?thesis using calc_freq_formula[of 12] v by simp
qed



text \<open>
  C8. In \<^verbatim>\<open>change_tone_if_needed\<close>, when the computed frequency equals \<^verbatim>\<open>last_freq\<close>,
  the instrument and the board stay as they are: \<^verbatim>\<open>last_freq\<close> is not written and
  \<^verbatim>\<open>play\<close> is not invoked. Hence, when a pass of the loop evaluates the frequency, the
  following passes \<open>mids\<close> wait for the deadline, and the next evaluating pass computes the
  same frequency, that second evaluation changes neither \<^verbatim>\<open>last_freq\<close> nor the audio
  output, and \<^verbatim>\<open>play\<close> has been invoked at most once over both evaluations. And a pass
  of the loop that changes \<^verbatim>\<open>last_freq\<close> is one that evaluated a frequency different
  from \<^verbatim>\<open>last_freq\<close>, which it then stores.
\<close>

theorem change_tone_no_retrigger:
  "(freq self (tilt cpx_in) (if switch cpx_in then 0 else 1) = Inr f \<and> last_freq self = Some f \<longrightarrow>
      change_tone_if_needed (self, cpx) cpx_in = Inr (self, cpx)) \<and>
   (process_button_presses st (at_buttons pa) = Inr sta \<and>
    at_test pa \<ge> next_freq_change_allowed_at (fst sta) \<and>
    freq (fst sta) (tilt (at_tone pa)) (if switch (at_tone pa) then 0 else 1) = Inr g \<and>
    run_pass st pa = Inr stf \<and>
    (\<forall>p\<in>set mids. at_test p < next_freq_change_allowed_at (fst stf)) \<and>
    run stf mids = Inr stm \<and>
    process_button_presses stm (at_buttons pb) = Inr stb \<and>
    at_test pb \<ge> next_freq_change_allowed_at (fst stb) \<and>
    freq (fst stb) (tilt (at_tone pb)) (if switch (at_tone pb) then 0 else 1) = Inr g \<longrightarrow>
      (\<exists>st2. run_pass stm pb = Inr st2 \<and> last_freq (fst st2) = last_freq (fst stf) \<and>
             audio_out (snd st2) = audio_out (snd stf) \<and>
             play_calls (audio_out (snd st2)) \<le> play_calls (audio_out (snd st)) + 1)) \<and>
   (run_pass stx pc = Inr sty \<and> last_freq (fst sty) \<noteq> last_freq (fst stx) \<longrightarrow>
      (\<exists>stc h. process_button_presses stx (at_buttons pc) = Inr stc \<and>
              at_test pc \<ge> next_freq_change_allowed_at (fst stc) \<and>
              freq (fst stc) (tilt (at_tone pc)) (if switch (at_tone pc) then 0 else 1) = Inr h \<and>
              Some h \<noteq> last_freq (fst stx) \<and> last_freq (fst sty) = Some h))"
proof (intro conjI impI)
  assume "freq self (tilt cpx_in) (if switch cpx_in then 0 else 1) = Inr f \<and> last_freq self = Some f"
  then show "change_tone_if_needed (self, cpx) cpx_in = Inr (self, cpx)"
    using change_tone_same by blast
next
  assume h: "process_button_presses st (at_buttons pa) = Inr sta \<and>
    at_test pa \<ge> next_freq_change_allowed_at (fst sta) \<and>
    freq (fst sta) (tilt (at_tone pa)) (if switch (at_tone pa) then 0 else 1) = Inr g \<and>
    run_pass st pa = Inr stf \<and>
    (\<forall>p\<in>set mids. at_test p < next_freq_change_allowed_at (fst stf)) \<and>
    run stf mids = Inr stm \<and>
    process_button_presses stm (at_buttons pb) = Inr stb \<and>
    at_test pb \<ge> next_freq_change_allowed_at (fst stb) \<and>
    freq (fst stb) (tilt (at_tone pb)) (if switch (at_tone pb) then 0 else 1) = Inr g"
  show "\<exists>st2. run_pass stm pb = Inr st2 \<and> last_freq (fst st2) = last_freq (fst stf) \<and>
             audio_out (snd st2) = audio_out (snd stf) \<and>
             play_calls (audio_out (snd st2)) \<le> play_calls (audio_out (snd st)) + 1"
  proof (rule two_evaluations[of st pa sta g stf mids stm pb stb])
  qed (use h in blast)+
next
  assume "run_pass stx pc = Inr sty \<and> last_freq (fst sty) \<noteq> last_freq (fst stx)"
  then show "\<exists>stc h. process_button_presses stx (at_buttons pc) = Inr stc \<and>
              at_test pc \<ge> next_freq_change_allowed_at (fst stc) \<and>
              freq (fst stc) (tilt (at_tone pc)) (if switch (at_tone pc) then 0 else 1) = Inr h \<and>
              Some h \<noteq> last_freq (fst stx) \<and> last_freq (fst sty) = Some h"
    using run_pass_changes_last_freq[of stx pc sty] by blast
qed

text \<open>
  The first pass, at time 1, starts the first tone. The pass at time 1.1 waits. The pass
  at time 1.3 computes the same frequency: nothing changes, and \<^verbatim>\<open>play\<close> has been
  invoked once.
\<close>

theorem change_tone_no_retrigger_witness:
  "freq (fst first_tone_state) (tilt board_at_rest) (if switch board_at_rest then 0 else 1)
     = Inr (calc_freq 0) \<and>
   last_freq (fst first_tone_state) = Some (calc_freq 0) \<and>
   change_tone_if_needed first_tone_state board_at_rest = Inr first_tone_state \<and>
   run_pass (new_instrument, lit_board) (quiet_pass 1) = Inr first_tone_state \<and>
   at_test (quiet_pass 1.1) < next_freq_change_allowed_at (fst first_tone_state) \<and>
   run first_tone_state [quiet_pass 1.1] = Inr first_tone_state \<and>
   at_test (quiet_pass 1.3) \<ge> next_freq_change_allowed_at (fst first_tone_state) \<and>
   (\<exists>st2. run_pass first_tone_state (quiet_pass 1.3) = Inr st2 \<and>
          last_freq (fst st2) = last_freq (fst first_tone_state) \<and>
          audio_out (snd st2) = audio_out (snd first_tone_state) \<and>
          play_calls (audio_out (snd st2)) \<le> play_calls (audio_out lit_board) + 1) \<and>
   last_freq (fst first_tone_state) \<noteq> last_freq new_instrument \<and>
   (\<exists>stc h. process_button_presses (new_instrument, lit_board) (at_buttons (quiet_pass 1)) = Inr stc \<and>
           at_test (quiet_pass 1) \<ge> next_freq_change_allowed_at (fst stc) \<and>
           freq (fst stc) (tilt (at_tone (quiet_pass 1)))
                (if switch (at_tone (quiet_pass 1)) then 0 else 1) = Inr h \<and>
           Some h \<noteq> last_freq new_instrument \<and> last_freq (fst first_tone_state) = Some h)"
proof -
  let ?d = "1 + MIN_NOTE_PLAY_SECONDS"
  let ?start = "(new_instrument, lit_board)"
  have fst_eq: "fst first_tone_state = playing_instrument\<lparr>next_freq_change_allowed_at := ?d\<rparr>"
    and snd_eq: "snd first_tone_state = playing_board"
    by (simp_all add: first_tone_state_def)
  have pair: "first_tone_state = (fst first_tone_state, snd first_tone_state)" by simp
  have tone: "at_tone (quiet_pass x) = board_at_rest" for x by (simp add: quiet_pass_def)
  have test: "at_test (quiet_pass x) = x" for x by (simp add: quiet_pass_def)
  have dl: "next_freq_change_allowed_at (fst first_tone_state) = 1.2"
    by (simp add: fst_eq MIN_NOTE_PLAY_SECONDS_def)
  have f2: "freq (fst first_tone_state) (tilt board_at_rest) (if switch board_at_rest then 0 else 1)
              = Inr (calc_freq 0)"
    unfolding fst_eq by (rule freq_playing_level)
  have l2: "last_freq (fst first_tone_state) = Some (calc_freq 0)"
    by (simp add: fst_eq playing_instrument_def)
  have l0: "last_freq new_instrument = None" by (simp add: new_instrument_def)
  have r1: "run_pass ?start (quiet_pass 1) = Inr first_tone_state"
    using first_quiet_pass by (simp add: first_tone_state_def)
  have b1: "process_button_presses ?start (at_buttons (quiet_pass 1)) = Inr ?start"
    by (simp add: quiet_pass_def no_press_at_rest)
  have t1: "at_test (quiet_pass 1) \<ge> next_freq_change_allowed_at (fst ?start)"
    by (simp add: test new_instrument_def)
  have f1: "freq (fst ?start) (tilt (at_tone (quiet_pass 1)))
              (if switch (at_tone (quiet_pass 1)) then 0 else 1) = Inr (calc_freq 0)"
    using freq_new_level by (simp add: tone)
  have w: "at_test (quiet_pass 1.1) < next_freq_change_allowed_at (fst first_tone_state)"
    by (simp add: test dl)
  have mid: "\<forall>p\<in>set [quiet_pass 1.1]. at_test p < next_freq_change_allowed_at (fst first_tone_state)"
    using w by simp
  have "run_pass first_tone_state (quiet_pass 1.1) = Inr first_tone_state"
    unfolding first_tone_state_def
    by (rule waiting_quiet_pass) (simp add: MIN_NOTE_PLAY_SECONDS_def)
  then have rm: "run first_tone_state [quiet_pass 1.1] = Inr first_tone_state"
    by (simp add: py_bind_def)
  have b2: "process_button_presses first_tone_state (at_buttons (quiet_pass 1.3)) = Inr first_tone_state"
    using no_press_at_rest[of "fst first_tone_state" "snd first_tone_state"]
    by (simp add: quiet_pass_def)
  have t2: "at_test (quiet_pass 1.3) \<ge> next_freq_change_allowed_at (fst first_tone_state)"
    by (simp add: test dl)
  have f2': "freq (fst first_tone_state) (tilt (at_tone (quiet_pass 1.3)))
              (if switch (at_tone (quiet_pass 1.3)) then 0 else 1) = Inr (calc_freq 0)"
    using f2 by (simp add: tone)
  note inst = change_tone_no_retrigger[where self = "fst first_tone_state"
      and cpx = "snd first_tone_state" and cpx_in = board_at_rest and f = "calc_freq 0"
      and st = ?start and pa = "quiet_pass 1" and sta = ?start and g = "calc_freq 0"
      and stf = first_tone_state and mids = "[quiet_pass 1.1]" and stm = first_tone_state
      and pb = "quiet_pass 1.3" and stb = first_tone_state
      and stx = ?start and pc = "quiet_pass 1" and sty = first_tone_state]
  have again: "change_tone_if_needed first_tone_state board_at_rest = Inr first_tone_state"
    using inst[THEN conjunct1] f2 l2 by simp
  have once: "\<exists>st2. run_pass first_tone_state (quiet_pass 1.3) = Inr st2 \<and>
          last_freq (fst st2) = last_freq (fst first_tone_state) \<and>
          audio_out (snd st2) = audio_out (snd first_tone_state) \<and>
          play_calls (audio_out (snd st2)) \<le> play_calls (audio_out lit_board) + 1"
    using inst[THEN conjunct2, THEN conjunct1] b1 t1 f1 r1 mid rm b2 t2 f2' by simp
  have differs: "last_freq (fst first_tone_state) \<noteq> last_freq new_instrument"
    using l2 l0 by simp
  have only: "\<exists>stc h. process_button_presses ?start (at_buttons (quiet_pass 1)) = Inr stc \<and>
           at_test (quiet_pass 1) \<ge> next_freq_change_allowed_at (fst stc) \<and>
           freq (fst stc) (tilt (at_tone (quiet_pass 1)))
                (if switch (at_tone (quiet_pass 1)) then 0 else 1) = Inr h \<and>
           Some h \<noteq> last_freq new_instrument \<and> last_freq (fst first_tone_state) = Some h"
    using inst[THEN conjunct2, THEN conjunct2] r1 differs by simp
  show ?thesis
    using f2 l2 again r1 w rm t2 once differs only by blast
qed

text \<open>
  C9, as the code has it. For every position from 0 to 11 on a strip of ten pixels,
  \<^verbatim>\<open>update_pixel\<close> turns all pixels off and lights the one pixel of index
  \<open>(4 - circle_pos) mod 10\<close> (modulo 10, the number of pixels, not 12), in the first
  colour (0, 255, 0) when the position is at most 9 and in the second colour
  (255, 255, 0) otherwise.
\<close>

theorem update_pixel_lights:
  "length (pixels cpx) = 10 \<Longrightarrow> 0 \<le> pos \<Longrightarrow> pos \<le> 11 \<Longrightarrow>
     update_pixel cpx pos =
       Inr (cpx\<lparr>pixels := (replicate 10 (0, 0, 0))
                  [nat ((4 - pos) mod 10) := (if pos \<le> 9 then (0, 255, 0) else (255, 255, 0))]\<rparr>) \<and>
     lit_pixels ((replicate 10 (0, 0, 0))
                  [nat ((4 - pos) mod 10) := (if pos \<le> 9 then (0, 255, 0) else (255, 255, 0))])
       = [nat ((4 - pos) mod 10)]"
proof -
  assume len: "length (pixels cpx) = 10" and pos: "0 \<le> pos" "pos \<le> 11"
  have cases: "pos = 0 \<or> pos = 1 \<or> pos = 2 \<or> pos = 3 \<or> pos = 4 \<or> pos = 5 \<or> pos = 6
               \<or> pos = 7 \<or> pos = 8 \<or> pos = 9 \<or> pos = 10 \<or> pos = 11"
    using pos by presburger
  have lit: "lit_pixels ((replicate 10 (0, 0, 0))
                  [nat ((4 - pos) mod 10) := (if pos \<le> 9 then (0, 255, 0) else (255, 255, 0))])
       = [nat ((4 - pos) mod 10)]"
    using cases by (elim disjE) (simp_all add: lit_pixels_def eval_nat_numeral)
  show ?thesis using update_pixel_ok[OF len, of pos] lit by simp
qed

text \<open>Position 10 on the new board: pixel 4 again, in the second colour.\<close>

theorem update_pixel_lights_witness:
  "length (pixels new_board) = 10 \<and> (0::int) \<le> 10 \<and> (10::int) \<le> 11 \<and>
   update_pixel new_board 10 =
     Inr (new_board\<lparr>pixels := [(0, 0, 0), (0, 0, 0), (0, 0, 0), (0, 0, 0), (255, 255, 0),
                               (0, 0, 0), (0, 0, 0), (0, 0, 0), (0, 0, 0), (0, 0, 0)]\<rparr>) \<and>
   lit_pixels [(0, 0, 0), (0, 0, 0), (0, 0, 0), (0, 0, 0), (255, 255, 0),
               (0, 0, 0), (0, 0, 0), (0, 0, 0), (0, 0, 0), (0, 0, 0)] = [4]"
proof -
  have l: "length (pixels new_board) = 10" by (simp add: new_board_def)
  have a: "(0::int) \<le> 10" and b: "(10::int) \<le> 11" by simp_all
  show ?thesis using l update_pixel_lights[OF l a b] by (simp add: eval_nat_numeral)
qed

text \<open>
  C9 as it is written, with index \<open>(4 - circle_pos) mod 12\<close>, fails at position 5: the
  code lights pixel 9, and \<open>(4 - 5) mod 12\<close> is 11, which is not a pixel of the strip.
\<close>

theorem update_pixel_mod_12_counterexample:
  "update_pixel new_board 5 =
     Inr (new_board\<lparr>pixels := [(0, 0, 0), (0, 0, 0), (0, 0, 0), (0, 0, 0), (0, 0, 0),
                               (0, 0, 0), (0, 0, 0), (0, 0, 0), (0, 0, 0), (0, 255, 0)]\<rparr>) \<and>
   lit_pixels [(0, 0, 0), (0, 0, 0), (0, 0, 0), (0, 0, 0), (0, 0, 0),
               (0, 0, 0), (0, 0, 0), (0, 0, 0), (0, 0, 0), (0, 255, 0)] = [9] \<and>
   lit_pixels [(0, 0, 0), (0, 0, 0), (0, 0, 0), (0, 0, 0), (0, 0, 0),
               (0, 0, 0), (0, 0, 0), (0, 0, 0), (0, 0, 0), (0, 255, 0)]
     \<noteq> [nat ((4 - (5::int)) mod 12)]"
  by (simp add: update_pixel_def setitem_def py_index_def py_bind_def new_board_def lit_pixels_def
        eval_nat_numeral)

text \<open>
  C10. \<^verbatim>\<open>start_tone\<close> returns the board unchanged, without invoking \<^verbatim>\<open>play\<close>, whenever
  the frequency exceeds 20000 Hz or the volume is 0. Otherwise, for a frequency of at
  most 20000 and a positive volume, it sets the sample rate to twice the frequency
  (truncated), enables the speaker and plays the sample in a loop; whatever was playing
  is replaced, and \<^verbatim>\<open>play\<close> has been invoked once more. The volume is an amplitude
  from 0 to 1; the guard of the code, \<^verbatim>\<open>self._volume > 0\<close>, ignores the call for any
  volume that is not positive (lemma \<open>start_tone_cases\<close>).
\<close>

theorem start_tone_guard:
  "(frequency > 20000 \<or> volume self = 0 \<longrightarrow> start_tone self frequency = Inr self) \<and>
   (frequency \<le> 20000 \<and> volume self > 0 \<longrightarrow>
      start_tone self frequency =
        Inr (self\<lparr>audiocore_raw_sample :=
                    (audiocore_raw_sample self)\<lparr>sample_rate := py_int (2 * frequency)\<rparr>,
                 speaker_enable := True,
                 audio_out :=
                    \<lparr>playing = Some ((audiocore_raw_sample self)
                                       \<lparr>sample_rate := py_int (2 * frequency)\<rparr>, True),
                     play_calls = Suc (play_calls (audio_out self))\<rparr>\<rparr>))"
  by (simp add: start_tone_cases)

text \<open>
  On the new board: 20001 Hz is ignored; 440 Hz at volume 0 is ignored; 440 Hz at volume
  1 plays the sample at rate 880, in a loop.
\<close>

theorem start_tone_guard_witness:
  "start_tone new_board 20001 = Inr new_board \<and>
   start_tone (new_board\<lparr>volume := 0\<rparr>) 440 = Inr (new_board\<lparr>volume := 0\<rparr>) \<and>
   start_tone new_board 440 =
     Inr (new_board\<lparr>audiocore_raw_sample := \<lparr>sample_data = [0, 32767], sample_rate = 880\<rparr>,
                    speaker_enable := True,
                    audio_out := \<lparr>playing = Some (\<lparr>sample_data = [0, 32767], sample_rate = 880\<rparr>, True),
                                  play_calls = 1\<rparr>\<rparr>)"
proof -
  have r: "py_int (2 * 440) = 880" by (simp add: py_int_def)
  show ?thesis
    using start_tone_guard[of 20001 new_board] start_tone_guard[of 440 "new_board\<lparr>volume := 0\<rparr>"]
          start_tone_guard[of 440 new_board] r
    by (simp add: new_board_def)
qed

end
